theory Spec2Isabelle
  imports Main "HOL-Library.Sublist" "HOL-Library.Word"
begin

section \<open>Text\<close>

text \<open>
  A Go string is a sequence of bytes; it is modelled as a \<open>string\<close> (a list of 8-bit
  characters). Where the Go library decodes UTF-8 (white space, case folding, the classes
  of a regular expression or of a glob), the model takes every character for one code
  point, which is exact on ASCII text.
\<close>

abbreviation NL :: char where "NL \<equiv> CHR 0x0A"
abbreviation CR :: char where "CR \<equiv> CHR 0x0D"
abbreviation TAB :: char where "TAB \<equiv> CHR 0x09"
abbreviation BSL :: char where "BSL \<equiv> CHR 0x5C"
abbreviation SQ :: char where "SQ \<equiv> CHR 0x27"
abbreviation DQ :: char where "DQ \<equiv> CHR 0x22"

text \<open>\<open>strings.HasPrefix\<close>, \<open>strings.HasSuffix\<close>, \<open>strings.TrimPrefix\<close>,
  \<open>strings.TrimSuffix\<close>.\<close>

definition HasPrefix :: "string \<Rightarrow> string \<Rightarrow> bool" where
  "HasPrefix s p = prefix p s"

definition HasSuffix :: "string \<Rightarrow> string \<Rightarrow> bool" where
  "HasSuffix s p = suffix p s"

definition TrimPrefix :: "string \<Rightarrow> string \<Rightarrow> string" where
  "TrimPrefix s p = (if HasPrefix s p then drop (length p) s else s)"

definition TrimSuffix :: "string \<Rightarrow> string \<Rightarrow> string" where
  "TrimSuffix s p = (if HasSuffix s p then take (length s - length p) s else s)"

text \<open>\<open>strings.Contains s sub\<close>: \<open>sub\<close> occurs in \<open>s\<close> at some position.\<close>

fun Contains :: "string \<Rightarrow> string \<Rightarrow> bool" where
  "Contains [] sub = (sub = [])"
| "Contains (c # s) sub = (prefix sub (c # s) \<or> Contains s sub)"

text \<open>\<open>strings.Split s sep\<close> for a separator of one character, the only kind the
  program uses. The result is never empty: a string without the separator is returned whole.\<close>

fun Split :: "string \<Rightarrow> char \<Rightarrow> string list" where
  "Split [] sep = [[]]"
| "Split (c # s) sep =
     (if c = sep then [] # Split s sep
      else (case Split s sep of [] \<Rightarrow> [[c]] | h # t \<Rightarrow> (c # h) # t))"

text \<open>\<open>strings.TrimSpace\<close> and \<open>strings.ToLower\<close>.\<close>

definition isSpace :: "char \<Rightarrow> bool" where
  "isSpace c = (c = CHR '' '' \<or> c = TAB \<or> c = NL \<or> c = CHR 0x0B \<or> c = CHR 0x0C \<or> c = CR)"

definition TrimSpace :: "string \<Rightarrow> string" where
  "TrimSpace s = rev (dropWhile isSpace (rev (dropWhile isSpace s)))"

definition isUpper :: "char \<Rightarrow> bool" where
  "isUpper c = (65 \<le> (of_char c :: nat) \<and> (of_char c :: nat) \<le> 90)"

definition isLower :: "char \<Rightarrow> bool" where
  "isLower c = (97 \<le> (of_char c :: nat) \<and> (of_char c :: nat) \<le> 122)"

definition toLower :: "char \<Rightarrow> char" where
  "toLower c = (if isUpper c then char_of (of_char c + (32 :: nat)) else c)"

definition toUpper :: "char \<Rightarrow> char" where
  "toUpper c = (if isLower c then char_of (of_char c - (32 :: nat)) else c)"

definition ToLower :: "string \<Rightarrow> string" where
  "ToLower s = map toLower s"


section \<open>The report (report.go)\<close>

text \<open>
  Line numbers are Go \<open>int\<close>s (64 bits, wrapping); the counters of the summary are
  lengths and counts of a slice, which cannot exceed the largest \<open>int\<close>, and are
  modelled as \<open>int\<close> without wrap-around. The time stamp of a report is taken as an
  opaque number supplied by the caller.
\<close>

type_synonym go_int = "64 word"

record Issue =
  Type :: string
  Severity :: string
  Message :: string
  File :: string
  Line :: go_int

record Summary =
  TotalFiles :: int
  TotalIssues :: int
  HighSeverity :: int
  MediumSeverity :: int
  LowSeverity :: int

record Report =
  Timestamp :: nat
  ChangedFiles :: "string list"
  Issues :: "Issue list"
  Summary :: Summary

definition zeroSummary :: Summary where
  "zeroSummary = \<lparr>TotalFiles = 0, TotalIssues = 0, HighSeverity = 0,
                   MediumSeverity = 0, LowSeverity = 0\<rparr>"

definition NewReport :: "nat \<Rightarrow> Report" where
  "NewReport now = \<lparr>Timestamp = now, ChangedFiles = [], Issues = [], Summary = zeroSummary\<rparr>"

text \<open>The loop of \<open>updateSummary\<close>: a \<open>switch\<close> on the severity string with three
  cases and no default.\<close>

fun countSeverities :: "Summary \<Rightarrow> Issue list \<Rightarrow> Summary" where
  "countSeverities s [] = s"
| "countSeverities s (issue # rest) =
     countSeverities
       (if Severity issue = ''high'' then s\<lparr>HighSeverity := HighSeverity s + 1\<rparr>
        else if Severity issue = ''medium'' then s\<lparr>MediumSeverity := MediumSeverity s + 1\<rparr>
        else if Severity issue = ''low'' then s\<lparr>LowSeverity := LowSeverity s + 1\<rparr>
        else s)
       rest"

definition updateSummary :: "Report \<Rightarrow> Report" where
  "updateSummary r =
     r\<lparr>Summary :=
         countSeverities
           ((Summary r)\<lparr>TotalFiles := int (length (ChangedFiles r)),
                        TotalIssues := int (length (Issues r)),
                        HighSeverity := 0, MediumSeverity := 0, LowSeverity := 0\<rparr>)
           (Issues r)\<rparr>"

definition AddIssue :: "Report \<Rightarrow> Issue \<Rightarrow> Report" where
  "AddIssue r issue = updateSummary (r\<lparr>Issues := Issues r @ [issue]\<rparr>)"

text \<open>A sequence of \<open>AddIssue\<close> calls.\<close>

definition AddIssues :: "Report \<Rightarrow> Issue list \<Rightarrow> Report" where
  "AddIssues r issues = foldl AddIssue r issues"

definition knownSeverity :: "Issue \<Rightarrow> bool" where
  "knownSeverity i = (Severity i = ''high'' \<or> Severity i = ''medium'' \<or> Severity i = ''low'')"


section \<open>Paths: \<open>filepath.Match\<close> and \<open>filepath.Base\<close>\<close>

text \<open>
  The glob matcher of the Go library, on a Unix path separator. A pattern is cut into
  chunks at each \<open>*\<close> outside brackets; a chunk is matched at the current position
  and, after a star, at each later position before the next separator. The callers use the
  result only when it is \<open>true\<close>, and the library returns \<open>false\<close> together with
  every error, so a malformed pattern is modelled as no match.
\<close>

datatype chunk_result = Matched string | NoMatch | BadPattern

text \<open>\<open>scanChunk\<close>: leading stars, then the text up to the next star outside
  brackets; a backslash protects the next character.\<close>

fun scanLen :: "bool \<Rightarrow> string \<Rightarrow> nat" where
  "scanLen inrange [] = 0"
| "scanLen inrange (c # cs) =
     (if c = BSL then (case cs of [] \<Rightarrow> 1 | _ # cs' \<Rightarrow> 2 + scanLen inrange cs')
      else if c = CHR ''['' then 1 + scanLen True cs
      else if c = CHR '']'' then 1 + scanLen False cs
      else if c = CHR ''*'' then (if inrange then 1 + scanLen inrange cs else 0)
      else 1 + scanLen inrange cs)"

definition scanChunk :: "string \<Rightarrow> bool \<times> string \<times> string" where
  "scanChunk pattern =
     (let star = (pattern \<noteq> [] \<and> hd pattern = CHR ''*'');
          p = dropWhile (\<lambda>c. c = CHR ''*'') pattern;
          i = scanLen False p
      in (star, take i p, drop i p))"

text \<open>\<open>getEsc\<close> reads one, possibly escaped, character of a class; it fails at the end
  of the chunk, on a bare \<open>-\<close> or \<open>]\<close>, and when nothing follows the character.\<close>

definition getEsc :: "string \<Rightarrow> (char \<times> string) option" where
  "getEsc chunk =
     (case chunk of
        [] \<Rightarrow> None
      | c # cs \<Rightarrow>
          if c = CHR ''-'' \<or> c = CHR '']'' then None
          else (case (if c = BSL then cs else chunk) of
                  [] \<Rightarrow> None
                | r # nchunk \<Rightarrow> if nchunk = [] then None else Some (r, nchunk)))"

lemma getEsc_shorter: "getEsc chunk = Some (r, rest) \<Longrightarrow> length rest < length chunk"
  by (auto simp: getEsc_def split: list.splits if_splits)

definition inRange :: "char \<Rightarrow> char \<Rightarrow> nat \<Rightarrow> bool" where
  "inRange lo hi r = (of_char lo \<le> r \<and> r \<le> of_char hi)"

function parseRanges :: "nat \<Rightarrow> bool \<Rightarrow> bool \<Rightarrow> string \<Rightarrow> (bool \<times> string) option" where
  "parseRanges r match started [] = None"
| "parseRanges r match started (c # cs) =
     (if c = CHR '']'' \<and> started then Some (match, cs)
      else (case getEsc (c # cs) of
              None \<Rightarrow> None
            | Some (lo, chunk1) \<Rightarrow>
                (case chunk1 of
                   [] \<Rightarrow> None
                 | d # chunk1' \<Rightarrow>
                     if d = CHR ''-'' then
                       (case getEsc chunk1' of
                          None \<Rightarrow> None
                        | Some (hi, chunk2) \<Rightarrow>
                            parseRanges r (match \<or> inRange lo hi r) True chunk2)
                     else parseRanges r (match \<or> inRange lo lo r) True chunk1)))"
  by pat_completeness auto
termination
proof (relation "measure (\<lambda>(r, m, st, chunk). length chunk)", goal_cases)
  case 1
  show ?case by simp
next
  case (2 r match started c cs x2 lo chunk1 d chunk1' x2a hi chunk2)
  then show ?case
    using getEsc_shorter [of "c # cs" lo chunk1] getEsc_shorter [of chunk1' hi chunk2]
    by simp
next
  case (3 r match started c cs x2 lo chunk1 d chunk1')
  then show ?case
    using getEsc_shorter [of "c # cs" lo chunk1] by simp
qed

lemma parseRanges_shorter:
  "parseRanges r m st chunk = Some (m', rest) \<Longrightarrow> length rest < length chunk"
proof (induction r m st chunk rule: parseRanges.induct)
  case (1 r match started)
  then show ?case by simp
next
  case (2 r match started c cs)
  show ?case
  proof (cases "c = CHR '']'' \<and> started")
    case True
    with "2.prems" show ?thesis by auto
  next
    case False
    with "2.prems" obtain lo chunk1 where g1: "getEsc (c # cs) = Some (lo, chunk1)"
      by (auto split: option.splits)
    from False "2.prems" g1 obtain d chunk1' where c1: "chunk1 = d # chunk1'"
      by (cases chunk1) auto
    have l1: "length chunk1 < length (c # cs)" using getEsc_shorter [OF g1] .
    show ?thesis
    proof (cases "d = CHR ''-''")
      case True
      with False "2.prems" g1 c1 obtain hi chunk2 where g2: "getEsc chunk1' = Some (hi, chunk2)"
        by (auto split: option.splits)
      have l2: "length chunk2 < length chunk1'" using getEsc_shorter [OF g2] .
      from False "2.prems" g1 c1 True g2
      have "parseRanges r (match \<or> inRange lo hi r) True chunk2 = Some (m', rest)"
        by (auto split: if_splits)
      from "2.IH"(1) [OF False g1 refl c1 True g2 refl this] l1 l2 c1 show ?thesis by simp
    next
      case F2: False
      from False "2.prems" g1 c1 F2
      have "parseRanges r (match \<or> inRange lo lo r) True chunk1 = Some (m', rest)"
        by (auto split: if_splits)
      from "2.IH"(2) [OF False g1 refl c1 F2 this] l1 show ?thesis by simp
    qed
  qed
qed

text \<open>\<open>matchChunk\<close>: once the match has failed the loop goes on through the chunk,
  only checking that it is well formed, and no longer reads \<open>s\<close>.\<close>

function matchChunkFrom :: "bool \<Rightarrow> string \<Rightarrow> string \<Rightarrow> chunk_result" where
  "matchChunkFrom failed [] s = (if failed then NoMatch else Matched s)"
| "matchChunkFrom failed0 (c # chunk) s =
     (let failed = (failed0 \<or> s = []) in
      if c = CHR ''['' then
        (let r = (if failed then 0 else of_char (hd s));
             s1 = (if failed then s else tl s);
             negated = (chunk \<noteq> [] \<and> hd chunk = CHR ''^'');
             chunk1 = (if negated then tl chunk else chunk)
         in case parseRanges r False False chunk1 of
              None \<Rightarrow> BadPattern
            | Some (match, chunk2) \<Rightarrow> matchChunkFrom (failed \<or> match = negated) chunk2 s1)
      else if c = CHR ''?'' then
        matchChunkFrom (failed \<or> hd s = CHR ''/'') chunk (if failed then s else tl s)
      else if c = BSL then
        (case chunk of
           [] \<Rightarrow> BadPattern
         | c' # chunk' \<Rightarrow>
             matchChunkFrom (failed \<or> c' \<noteq> hd s) chunk' (if failed then s else tl s))
      else matchChunkFrom (failed \<or> c \<noteq> hd s) chunk (if failed then s else tl s))"
  by pat_completeness auto
termination
proof (relation "measure (\<lambda>(f, chunk, s). length chunk)", goal_cases)
  case (2 failed0 c chunk s failed r s1 negated chunk1 x2 match chunk2)
  then show ?case
    using parseRanges_shorter [of r False False chunk1 match chunk2]
    by (auto split: if_splits)
qed auto

definition matchChunk :: "string \<Rightarrow> string \<Rightarrow> chunk_result" where
  "matchChunk chunk s = matchChunkFrom False chunk s"

text \<open>The loop after a star: try the chunk after skipping \<open>i + 1\<close> characters, for each
  \<open>i\<close> up to the next separator; the last chunk must use up the name.\<close>

fun starSearch :: "string \<Rightarrow> bool \<Rightarrow> string \<Rightarrow> string option" where
  "starSearch chunk lastChunk [] = None"
| "starSearch chunk lastChunk (c # name) =
     (if c = CHR ''/'' then None
      else (case matchChunk chunk name of
              Matched t \<Rightarrow> if lastChunk \<and> t \<noteq> [] then starSearch chunk lastChunk name else Some t
            | NoMatch \<Rightarrow> starSearch chunk lastChunk name
            | BadPattern \<Rightarrow> None))"

lemma scanLen_pos: "c \<noteq> CHR ''*'' \<Longrightarrow> 0 < scanLen False (c # cs)"
  by (simp split: list.splits)

lemma scanChunk_shorter:
  assumes "pattern \<noteq> []" "(star, chunk, rest) = scanChunk pattern"
  shows "length rest < length pattern"
proof (cases "hd pattern = CHR ''*''")
  case True
  with assms(1) obtain cs where p: "pattern = CHR ''*'' # cs" by (cases pattern) auto
  have "length (dropWhile (\<lambda>c. c = CHR ''*'') cs) \<le> length cs"
    by (rule length_dropWhile_le)
  with assms(2) p show ?thesis by (auto simp: scanChunk_def Let_def)
next
  case False
  with assms(1) obtain c cs where p: "pattern = c # cs" "c \<noteq> CHR ''*''" by (cases pattern) auto
  with assms(2) scanLen_pos [OF p(2), of cs] show ?thesis
    by (auto simp: scanChunk_def Let_def simp del: scanLen.simps)
qed

function Match :: "string \<Rightarrow> string \<Rightarrow> bool" where
  "Match [] name = (name = [])"
| "Match (p # ps) name =
     (case scanChunk (p # ps) of
        (star, chunk, rest) \<Rightarrow>
          if star \<and> chunk = [] then \<not> Contains name ''/''
          else (case matchChunk chunk name of
                  BadPattern \<Rightarrow> False
                | Matched t \<Rightarrow>
                    if t = [] \<or> rest \<noteq> [] then Match rest t
                    else if star then
                      (case starSearch chunk (rest = []) name of
                         None \<Rightarrow> False
                       | Some t' \<Rightarrow> Match rest t')
                    else False
                | NoMatch \<Rightarrow>
                    if star then
                      (case starSearch chunk (rest = []) name of
                         None \<Rightarrow> False
                       | Some t' \<Rightarrow> Match rest t')
                    else False))"
  by pat_completeness auto
termination
  by (relation "measure (\<lambda>(pattern, name). length pattern)")
     (auto dest: scanChunk_shorter [rotated])

text \<open>\<open>filepath.Base\<close>: the last element of the path, trailing separators removed;
  \<open>.\<close> for the empty path and \<open>/\<close> for a path of separators only.\<close>

definition Base :: "string \<Rightarrow> string" where
  "Base path =
     (if path = [] then ''.''
      else (let p = rev (dropWhile (\<lambda>c. c = CHR ''/'') (rev path));
                e = rev (takeWhile (\<lambda>c. c \<noteq> CHR ''/'') (rev p))
            in if e = [] then ''/'' else e))"


section \<open>The analyzer and its surroundings (analyzer.go)\<close>

text \<open>
  Everything the analyzer learns from outside the process is a field of the environment:
  the output of each \<open>git diff\<close> and \<open>find\<close> command (\<open>None\<close> when the command
  fails), the content of each file below the repository root (\<open>None\<close> when it cannot be
  read), the clock, and the order in which the Go runtime walks the pattern map of the
  whole-file security check, which the language leaves open, for each file checked.
  Verbose logging writes to the terminal only and is left out.
\<close>

record env =
  git_diff_names :: "string \<Rightarrow> string option"
  git_diff_file :: "string \<Rightarrow> string \<Rightarrow> string option"
  find_name :: "string \<Rightarrow> string option"
  read_file :: "string \<Rightarrow> string option"
  clock :: nat
  range_order :: "string \<Rightarrow> (string \<times> string) list"

record Analyzer =
  repoPath :: string
  ignorePatterns :: "string list"
  verbose :: bool
  targetBranch :: string

text \<open>Errors: a command that fails, and the three messages that wrap an error:
  \<open>failed to get changed files\<close>, \<open>git diff analysis failed\<close> and
  \<open>full codebase analysis failed\<close>.\<close>

datatype error =
    CommandFailed
  | GetChangedFilesFailed error
  | GitDiffAnalysisFailed error
  | FullCodebaseAnalysisFailed error

text \<open>\<open>loadIgnorePatterns\<close> and \<open>NewAnalyzer\<close>: the lines of \<open>.autoreview-ignore\<close>,
  trimmed, without the empty ones and the comments; no patterns when the file cannot be read.\<close>

definition loadIgnorePatterns :: "env \<Rightarrow> Analyzer \<Rightarrow> Analyzer" where
  "loadIgnorePatterns e a =
     (case read_file e ''.autoreview-ignore'' of
        None \<Rightarrow> a
      | Some content \<Rightarrow>
          a\<lparr>ignorePatterns := ignorePatterns a @
               filter (\<lambda>line. line \<noteq> [] \<and> \<not> HasPrefix line ''#'')
                      (map TrimSpace (Split content NL))\<rparr>)"

definition NewAnalyzer :: "env \<Rightarrow> string \<Rightarrow> bool \<Rightarrow> Analyzer" where
  "NewAnalyzer e path v =
     loadIgnorePatterns e
       \<lparr>repoPath = path, ignorePatterns = [], verbose = v, targetBranch = []\<rparr>"

text \<open>\<open>shouldIgnoreFile\<close>: the three tests of the loop body, for one pattern, and the
  loop that returns at the first pattern that passes one of them.\<close>

definition matchesIgnorePattern :: "string \<Rightarrow> string \<Rightarrow> bool" where
  "matchesIgnorePattern pattern filePath =
     (if filePath = pattern then True
      else if Match pattern filePath then True
      else if HasSuffix pattern ''/'' then
        (let dirPattern = TrimSuffix pattern ''/'' in HasPrefix filePath (dirPattern @ ''/''))
      else False)"

fun ignoredBy :: "string list \<Rightarrow> string \<Rightarrow> bool" where
  "ignoredBy [] filePath = False"
| "ignoredBy (pattern # rest) filePath =
     (if matchesIgnorePattern pattern filePath then True else ignoredBy rest filePath)"

definition shouldIgnoreFile :: "Analyzer \<Rightarrow> string \<Rightarrow> bool" where
  "shouldIgnoreFile a filePath = ignoredBy (ignorePatterns a) filePath"

text \<open>\<open>analyzeGitDiff\<close>: the names of the changed files against \<open>origin/<target>\<close>,
  then against the local \<open><target>\<close>; an error when both commands fail. The preceding
  \<open>git fetch\<close> has its result ignored.\<close>

definition appendFiles :: "Report \<Rightarrow> string list \<Rightarrow> Report" where
  "appendFiles report fs = report\<lparr>ChangedFiles := ChangedFiles report @ fs\<rparr>"

definition changedFilesOutput :: "env \<Rightarrow> string \<Rightarrow> string option" where
  "changedFilesOutput e target =
     (case git_diff_names e (''origin/'' @ target @ ''..HEAD'') of
        Some output \<Rightarrow> Some output
      | None \<Rightarrow> git_diff_names e (target @ ''..HEAD''))"

definition analyzeGitDiff :: "env \<Rightarrow> Analyzer \<Rightarrow> string \<Rightarrow> Report \<Rightarrow> error + Report" where
  "analyzeGitDiff e a target report =
     (case changedFilesOutput e target of
        None \<Rightarrow> Inl (GetChangedFilesFailed CommandFailed)
      | Some output \<Rightarrow>
          Inr (appendFiles report
                 (filter (\<lambda>f. f \<noteq> [] \<and> \<not> shouldIgnoreFile a f)
                         (Split (TrimSpace output) NL))))"

text \<open>\<open>analyzeFullCodebase\<close>: one \<open>find . -name *<ext> -type f\<close> for each extension,
  in this order; a failing \<open>find\<close> contributes nothing. The function has no error exit.\<close>

definition codeExtensions :: "string list" where
  "codeExtensions =
     [''.py'', ''.js'', ''.ts'', ''.jsx'', ''.tsx'', ''.dart'', ''.rb'', ''.php'', ''.java'', ''.kt'']"

definition foundFiles :: "env \<Rightarrow> Analyzer \<Rightarrow> string \<Rightarrow> string list" where
  "foundFiles e a ext =
     (case find_name e (''*'' @ ext) of
        None \<Rightarrow> []
      | Some output \<Rightarrow>
          filter (\<lambda>f. f \<noteq> [] \<and> f \<noteq> ''.'' \<and> \<not> shouldIgnoreFile a f)
                 (Split (TrimSpace output) NL))"

definition analyzeFullCodebase :: "env \<Rightarrow> Analyzer \<Rightarrow> Report \<Rightarrow> error + Report" where
  "analyzeFullCodebase e a report =
     Inr (foldl (\<lambda>r ext. appendFiles r (foundFiles e a ext)) report codeExtensions)"


section \<open>Regular expressions\<close>

text \<open>
  The patterns of the security checks are Go regular expressions (RE2 syntax), matched
  with \<open>MatchString\<close>: the pattern matches when some substring of the line belongs to
  its language. A pattern is written here as its syntax tree; the flag \<open>(?i)\<close> of the
  source is the field \<open>foldCase\<close>. A character is matched through the derivative of
  the expression.
\<close>

datatype citem = Ch char | Rng char char | WS

datatype re = Nul | Eps | Cls bool "citem list" | Dot | Cat re re | Alt re re | Star re

datatype regexp = Regexp (foldCase: bool) (expr: re)

definition between :: "char \<Rightarrow> char \<Rightarrow> char \<Rightarrow> bool" where
  "between lo hi x = ((of_char lo :: nat) \<le> of_char x \<and> (of_char x :: nat) \<le> of_char hi)"

text \<open>An item of a class: a character, a range, or \<open>\s\<close> (tab, newline, form feed,
  carriage return, space). Under \<open>(?i)\<close> a letter stands for both of its cases.\<close>

fun itemMatch :: "bool \<Rightarrow> citem \<Rightarrow> char \<Rightarrow> bool" where
  "itemMatch ci (Ch c) x = (x = c \<or> (ci \<and> toLower x = toLower c))"
| "itemMatch ci (Rng lo hi) x =
     (between lo hi x \<or> (ci \<and> (between lo hi (toLower x) \<or> between lo hi (toUpper x))))"
| "itemMatch ci WS x = (x = TAB \<or> x = NL \<or> x = CHR 0x0C \<or> x = CR \<or> x = CHR '' '')"

text \<open>\<open>Cls neg items\<close> is the class \<open>[...]\<close>, or \<open>[^...]\<close> when \<open>neg\<close> holds;
  \<open>Dot\<close> is any character but the newline.\<close>

definition clsMatch :: "bool \<Rightarrow> bool \<Rightarrow> citem list \<Rightarrow> char \<Rightarrow> bool" where
  "clsMatch ci neg items x = (neg \<noteq> list_ex (\<lambda>i. itemMatch ci i x) items)"

fun nullable :: "re \<Rightarrow> bool" where
  "nullable Nul = False"
| "nullable Eps = True"
| "nullable (Cls neg items) = False"
| "nullable Dot = False"
| "nullable (Cat r s) = (nullable r \<and> nullable s)"
| "nullable (Alt r s) = (nullable r \<or> nullable s)"
| "nullable (Star r) = True"

fun cat :: "re \<Rightarrow> re \<Rightarrow> re" where
  "cat Nul s = Nul"
| "cat Eps s = s"
| "cat r s = Cat r s"

fun alt :: "re \<Rightarrow> re \<Rightarrow> re" where
  "alt Nul s = s"
| "alt r Nul = r"
| "alt r s = Alt r s"

fun deriv :: "bool \<Rightarrow> char \<Rightarrow> re \<Rightarrow> re" where
  "deriv ci x Nul = Nul"
| "deriv ci x Eps = Nul"
| "deriv ci x (Cls neg items) = (if clsMatch ci neg items x then Eps else Nul)"
| "deriv ci x Dot = (if x \<noteq> NL then Eps else Nul)"
| "deriv ci x (Cat r s) =
     (if nullable r then alt (cat (deriv ci x r) s) (deriv ci x s) else cat (deriv ci x r) s)"
| "deriv ci x (Alt r s) = alt (deriv ci x r) (deriv ci x s)"
| "deriv ci x (Star r) = cat (deriv ci x r) (Star r)"

text \<open>A match that starts at the head of the string, and a match that starts anywhere.\<close>

fun prefixMatch :: "bool \<Rightarrow> re \<Rightarrow> string \<Rightarrow> bool" where
  "prefixMatch ci r [] = nullable r"
| "prefixMatch ci r (x # s) = (nullable r \<or> prefixMatch ci (deriv ci x r) s)"

fun search :: "bool \<Rightarrow> re \<Rightarrow> string \<Rightarrow> bool" where
  "search ci r [] = nullable r"
| "search ci r (x # s) = (prefixMatch ci r (x # s) \<or> search ci r s)"

definition MatchString :: "regexp \<Rightarrow> string \<Rightarrow> bool" where
  "MatchString rx s = search (foldCase rx) (expr rx) s"

text \<open>The notation of the patterns: a literal text, a sequence, \<open>r?\<close>, \<open>r+\<close>,
  \<open>r{n}\<close>, \<open>r{n,}\<close>, \<open>\s\<close>, \<open>["']\<close>, \<open>[:=]\<close> and \<open>.*\<close>.\<close>

definition rchar :: "char \<Rightarrow> re" where
  "rchar c = Cls False [Ch c]"

definition rlit :: "string \<Rightarrow> re" where
  "rlit s = foldr (\<lambda>c r. Cat (rchar c) r) s Eps"

definition rseq :: "re list \<Rightarrow> re" where
  "rseq rs = foldr Cat rs Eps"

definition ropt :: "re \<Rightarrow> re" where
  "ropt r = Alt r Eps"

definition rplus :: "re \<Rightarrow> re" where
  "rplus r = Cat r (Star r)"

primrec rtimes :: "nat \<Rightarrow> re \<Rightarrow> re" where
  "rtimes 0 r = Eps"
| "rtimes (Suc n) r = Cat r (rtimes n r)"

definition rmin :: "nat \<Rightarrow> re \<Rightarrow> re" where
  "rmin n r = Cat (rtimes n r) (Star r)"

definition rws :: re where
  "rws = Cls False [WS]"

definition rquote :: re where
  "rquote = Cls False [Ch DQ, Ch SQ]"

definition rassign :: re where
  "rassign = Cls False [Ch (CHR '':''), Ch (CHR ''='')]"

definition rany :: re where
  "rany = Star Dot"

definition ci_lit :: "string \<Rightarrow> regexp" where
  "ci_lit s = Regexp True (rlit s)"


text \<open>The language of an expression, to which the matcher is compared below.\<close>

inductive_set star :: "string set \<Rightarrow> string set" for A :: "string set" where
  star_empty: "[] \<in> star A"
| star_step: "u \<in> A \<Longrightarrow> v \<in> star A \<Longrightarrow> u @ v \<in> star A"

fun lang :: "bool \<Rightarrow> re \<Rightarrow> string set" where
  "lang ci Nul = {}"
| "lang ci Eps = {[]}"
| "lang ci (Cls neg items) = {[x] | x. clsMatch ci neg items x}"
| "lang ci Dot = {[x] | x. x \<noteq> NL}"
| "lang ci (Cat r s) = {u @ v | u v. u \<in> lang ci r \<and> v \<in> lang ci s}"
| "lang ci (Alt r s) = lang ci r \<union> lang ci s"
| "lang ci (Star r) = star (lang ci r)"


section \<open>The security rules (security.go)\<close>

record SecurityPattern =
  Name :: string
  Pattern :: regexp
  Exclusions :: "regexp list"
  PMessage :: string
  PSeverity :: string

definition securityIgnoreFiles :: "string list" where
  "securityIgnoreFiles =
     [''package-lock.json'', ''yarn.lock'', ''pnpm-lock.yaml'', ''Gemfile.lock'',
      ''poetry.lock'', ''go.sum'', ''Cargo.lock'', ''composer.lock'']"

definition securityIgnorePatterns :: "string list" where
  "securityIgnorePatterns =
     [''*.min.js'', ''*.min.css'', ''*.map'', ''*.snap'', ''__snapshots__/*'',
      ''*.generated.*'', ''vendor/*'', ''node_modules/*'']"

text \<open>The value part of the key and token rules: \<open>\s*[:=]\s*["']([...]{n,})["']\<close>.\<close>

definition assignedValue :: "nat \<Rightarrow> re \<Rightarrow> re list" where
  "assignedValue n cls = [Star rws, rassign, Star rws, rquote, rmin n cls, rquote]"

definition keyChars :: "citem list" where
  "keyChars = [Rng (CHR ''A'') (CHR ''Z''), Rng (CHR ''a'') (CHR ''z''),
               Rng (CHR ''0'') (CHR ''9''), Ch (CHR ''_''), Ch (CHR ''-'')]"

definition upperOrDigit :: re where
  "upperOrDigit = Cls False [Rng (CHR ''A'') (CHR ''Z''), Rng (CHR ''0'') (CHR ''9'')]"

text \<open>\<^verbatim>\<open>(?i)password\s*[:=]\s*["']([^"']{8,})["']\<close> and its nine exclusions.\<close>

definition exclude_input_type :: regexp where
  "exclude_input_type =
     Regexp True (rseq [rlit ''type'', Star rws, rassign, Star rws, rquote,
                        rlit ''password'', rquote])"

definition hardcoded_password :: SecurityPattern where
  "hardcoded_password =
     \<lparr>Name = ''hardcoded_password'',
      Pattern = Regexp True (rseq (rlit ''password'' #
                  assignedValue 8 (Cls True [Ch DQ, Ch SQ]))),
      Exclusions =
        [exclude_input_type,
         Regexp True (rseq [rlit ''autocomplete'', Star rws, rassign, Star rws, rquote,
                            rany, rlit ''password'', rany, rquote]),
         Regexp True (rseq [rlit ''password'', Star rws, rassign, Star rws, rquote, rquote]),
         Regexp True (rseq [rlit ''placeholder'', rany, rlit ''password'']),
         Regexp True (rseq [rlit ''label'', rany, rlit ''password'']),
         Regexp True (rseq [rlit ''message'', rany, rlit ''password'']),
         Regexp True (rseq [rlit ''name'', Star rws, rassign, Star rws, rquote,
                            rany, rlit ''password'', rany, rquote]),
         Regexp True (rseq [rlit ''required'', rany, rlit ''password'']),
         Regexp True (rseq [rlit ''password'', rany, rlit ''required''])],
      PMessage = ''Potential hardcoded password detected'',
      PSeverity = ''high''\<rparr>"

text \<open>\<^verbatim>\<open>(?i)(api[_-]?key|apikey)\s*[:=]\s*["']([A-Za-z0-9_\-]{16,})["']\<close>.\<close>

definition hardcoded_api_key :: SecurityPattern where
  "hardcoded_api_key =
     \<lparr>Name = ''hardcoded_api_key'',
      Pattern = Regexp True (rseq (
                  Alt (rseq [rlit ''api'', ropt (Cls False [Ch (CHR ''_''), Ch (CHR ''-'')]),
                             rlit ''key''])
                      (rlit ''apikey'') #
                  assignedValue 16 (Cls False keyChars))),
      Exclusions =
        [ci_lit ''process.env'', ci_lit ''ENV['', ci_lit ''os.environ'', ci_lit ''getenv'',
         Regexp True (rseq [rlit ''api_key'', rany, rlit ''()'']),
         Regexp True (rseq [rlit ''def'', rplus rws, rlit ''api_key'']),
         Regexp True (rseq [rlit ''function'', rplus rws, rlit ''api_key'']),
         ci_lit ''api_key_authorized''],
      PMessage = ''Potential hardcoded API key detected'',
      PSeverity = ''high''\<rparr>"

text \<open>\<^verbatim>\<open>(?i)(secret|secret_key|client_secret)\s*[:=]\s*["']([A-Za-z0-9_\-]{16,})["']\<close>.\<close>

definition hardcoded_secret :: SecurityPattern where
  "hardcoded_secret =
     \<lparr>Name = ''hardcoded_secret'',
      Pattern = Regexp True (rseq (
                  Alt (rlit ''secret'') (Alt (rlit ''secret_key'') (rlit ''client_secret'')) #
                  assignedValue 16 (Cls False keyChars))),
      Exclusions =
        [ci_lit ''process.env'', ci_lit ''ENV['', ci_lit ''os.environ'', ci_lit ''getenv'',
         Regexp True (rseq [rlit ''{{'', rany, rlit ''secret'', rany, rlit ''}}'']),
         Regexp True (rseq [rlit ''${'', rany, rlit ''secret'', rany, rlit ''}'']),
         ci_lit ''otp_secret'',
         Regexp True (rseq [rlit ''secret'', rany, rlit ''data['']),
         Regexp True (rseq [rlit ''data.'', rany, rlit ''secret''])],
      PMessage = ''Potential hardcoded secret detected'',
      PSeverity = ''high''\<rparr>"

text \<open>\<^verbatim>\<open>-----BEGIN\s+(RSA|EC|DSA|OPENSSH|PGP)?\s*PRIVATE KEY-----\<close>, case sensitive.\<close>

definition private_key :: SecurityPattern where
  "private_key =
     \<lparr>Name = ''private_key'',
      Pattern = Regexp False (rseq
                  [rlit ''-----BEGIN'', rplus rws,
                   ropt (Alt (rlit ''RSA'') (Alt (rlit ''EC'') (Alt (rlit ''DSA'')
                           (Alt (rlit ''OPENSSH'') (rlit ''PGP''))))),
                   Star rws, rlit ''PRIVATE KEY-----'']),
      Exclusions = [ci_lit ''.example'', ci_lit ''template'', ci_lit ''.sample''],
      PMessage = ''Private key detected in code'',
      PSeverity = ''high''\<rparr>"

text \<open>\<^verbatim>\<open>(A3T[A-Z0-9]|AKIA|ABIA|ACCA|ASIA)[A-Z0-9]{16}\<close>, case sensitive.\<close>

definition aws_credentials :: SecurityPattern where
  "aws_credentials =
     \<lparr>Name = ''aws_credentials'',
      Pattern = Regexp False (rseq
                  [Alt (rseq [rlit ''A3T'', upperOrDigit])
                       (Alt (rlit ''AKIA'') (Alt (rlit ''ABIA'') (Alt (rlit ''ACCA'') (rlit ''ASIA'')))),
                   rtimes 16 upperOrDigit]),
      Exclusions =
        [ci_lit ''example'', ci_lit ''placeholder'',
         Regexp True (rseq [rlit ''your'', ropt Dot, rlit ''access'', ropt Dot, rlit ''key''])],
      PMessage = ''AWS access key detected'',
      PSeverity = ''high''\<rparr>"

text \<open>\<^verbatim>\<open>(?i)(auth_token|access_token|bearer)\s*[:=]\s*["']([A-Za-z0-9_\-\.]{32,})["']\<close>.\<close>

definition generic_token :: SecurityPattern where
  "generic_token =
     \<lparr>Name = ''generic_token'',
      Pattern = Regexp True (rseq (
                  Alt (rlit ''auth_token'') (Alt (rlit ''access_token'') (rlit ''bearer'')) #
                  assignedValue 32 (Cls False (keyChars @ [Ch (CHR ''.'')])))),
      Exclusions =
        [ci_lit ''process.env'', ci_lit ''ENV['', ci_lit ''getenv'', ci_lit ''localStorage'',
         ci_lit ''sessionStorage'', ci_lit ''cookie''],
      PMessage = ''Potential hardcoded token detected'',
      PSeverity = ''high''\<rparr>"

definition GetSecurityPatterns :: "SecurityPattern list" where
  "GetSecurityPatterns =
     [hardcoded_password, hardcoded_api_key, hardcoded_secret, private_key,
      aws_credentials, generic_token]"

text \<open>\<open>shouldSkipFileForSecurity\<close>: the base name is one of the lock files, or a glob of
  \<open>securityIgnorePatterns\<close> matches the path or the base name.\<close>

fun matchesAnyGlob :: "string list \<Rightarrow> string \<Rightarrow> string \<Rightarrow> bool" where
  "matchesAnyGlob [] filePath baseName = False"
| "matchesAnyGlob (pattern # rest) filePath baseName =
     (if Match pattern filePath then True
      else if Match pattern baseName then True
      else matchesAnyGlob rest filePath baseName)"

definition shouldSkipFileForSecurity :: "string \<Rightarrow> bool" where
  "shouldSkipFileForSecurity filePath =
     (let baseName = Base filePath in
      if baseName \<in> set securityIgnoreFiles then True
      else matchesAnyGlob securityIgnorePatterns filePath baseName)"


section \<open>The diff line extractor (security.go)\<close>

text \<open>
  \<open>bufio.Scanner\<close> with the default split function: the text is cut at each newline,
  one trailing carriage return is dropped from each line, and a last line without newline
  is a line unless it is empty. A line that does not fit the buffer of 64 KiB ends the
  scan; the extractor does not look at the scanner's error.
\<close>

definition MaxScanTokenSize :: int where
  "MaxScanTokenSize = 64 * 1024"

definition dropCR :: "string \<Rightarrow> string" where
  "dropCR s = (if s \<noteq> [] \<and> last s = CR then butlast s else s)"

definition scanLines :: "string \<Rightarrow> string list" where
  "scanLines text =
     (let pieces = Split text NL;
          raw = (if last pieces = [] then butlast pieces else pieces)
      in map dropCR (takeWhile (\<lambda>l. int (length l) < MaxScanTokenSize) raw))"

text \<open>
  \<open>fmt.Sscanf(numPart, "%d", &startLine)\<close>: white space is skipped (a newline is an
  error), then an optional sign and the longest run of the digits 0 to 9 are read; the run
  must not be empty and its value must fit 64 bits. What follows the number is not read.
\<close>

definition isDigit :: "char \<Rightarrow> bool" where
  "isDigit c = between (CHR ''0'') (CHR ''9'') c"

definition decimal :: "string \<Rightarrow> nat" where
  "decimal ds = foldl (\<lambda>n c. 10 * n + (of_char c - 48)) 0 ds"

definition Sscanf_d :: "string \<Rightarrow> go_int option" where
  "Sscanf_d s =
     (case dropWhile (\<lambda>c. isSpace c \<and> c \<noteq> NL) s of
        [] \<Rightarrow> None
      | c # rest \<Rightarrow>
          if c = NL then None
          else (let neg = (c = CHR ''-'');
                    body = (if c = CHR ''+'' \<or> c = CHR ''-'' then rest else c # rest);
                    ds = takeWhile isDigit body;
                    v = (if neg then - int (decimal ds) else int (decimal ds))
                in if ds = [] then None
                   else if - (2 ^ 63) \<le> v \<and> v < 2 ^ 63 then Some (word_of_int v)
                   else None))"

definition first :: "string list \<Rightarrow> string" where
  "first parts = (case parts of [] \<Rightarrow> [] | p # _ \<Rightarrow> p)"

text \<open>The new-file start of a hunk header \<open>@@ -X,Y +A,B @@\<close>: the text after the first
  \<open>+\<close>, up to the first comma and then up to the first space.\<close>

definition hunkStart :: "string \<Rightarrow> go_int option" where
  "hunkStart line =
     (case Split line (CHR ''+'') of
        _ # part1 # _ \<Rightarrow> Sscanf_d (first (Split (first (Split part1 (CHR '',''))) (CHR '' '')))
      | _ \<Rightarrow> None)"

record ChangedLine =
  LineNum :: go_int
  Content :: string

definition isAddedLine :: "string \<Rightarrow> bool" where
  "isAddedLine line = (HasPrefix line ''+'' \<and> \<not> HasPrefix line ''+++'')"

text \<open>The loop over the lines of the diff, with the running counter \<open>currentLine\<close>
  and the lines collected so far.\<close>

fun scanDiff :: "go_int \<Rightarrow> ChangedLine list \<Rightarrow> string list \<Rightarrow> ChangedLine list" where
  "scanDiff currentLine changedLines [] = changedLines"
| "scanDiff currentLine changedLines (line # rest) =
     (if HasPrefix line ''@@'' then
        scanDiff (case hunkStart line of Some startLine \<Rightarrow> startLine - 1 | None \<Rightarrow> currentLine)
                 changedLines rest
      else if isAddedLine line then
        scanDiff (currentLine + 1)
                 (changedLines @ [\<lparr>LineNum = currentLine + 1, Content = TrimPrefix line ''+''\<rparr>])
                 rest
      else if \<not> HasPrefix line ''-'' \<and> \<not> HasPrefix line [BSL] then
        (if line \<noteq> [] \<and> hd line \<noteq> CHR ''-'' \<and> hd line \<noteq> BSL \<and> hd line \<noteq> CHR ''@''
            \<and> hd line \<noteq> CHR ''d''
         then scanDiff (currentLine + 1) changedLines rest
         else scanDiff currentLine changedLines rest)
      else scanDiff currentLine changedLines rest)"

text \<open>\<open>getChangedLines\<close>: \<open>git diff -U0 --diff-filter=AM\<close> of the file against
  \<open>origin/<target>\<close>, then against the local \<open><target>\<close>; the error of the second
  command when both fail.\<close>

definition fileDiffOutput :: "env \<Rightarrow> string \<Rightarrow> string \<Rightarrow> string option" where
  "fileDiffOutput e target filePath =
     (case git_diff_file e (''origin/'' @ target @ ''..HEAD'') filePath of
        Some output \<Rightarrow> Some output
      | None \<Rightarrow> git_diff_file e (target @ ''..HEAD'') filePath)"

definition getChangedLines :: "env \<Rightarrow> string \<Rightarrow> string \<Rightarrow> error + ChangedLine list" where
  "getChangedLines e target filePath =
     (case fileDiffOutput e target filePath of
        None \<Rightarrow> Inl CommandFailed
      | Some output \<Rightarrow> Inr (scanDiff 0 [] (scanLines output)))"


section \<open>Rule evaluation on changed lines (security.go)\<close>

text \<open>The loop over the exclusions of a rule stops at the first one that matches.\<close>

fun excluded :: "regexp list \<Rightarrow> string \<Rightarrow> bool" where
  "excluded [] content = False"
| "excluded (exc # rest) content = (if MatchString exc content then True else excluded rest content)"

definition checkPattern :: "string \<Rightarrow> ChangedLine \<Rightarrow> Report \<Rightarrow> SecurityPattern \<Rightarrow> Report" where
  "checkPattern file line report sp =
     (if \<not> MatchString (Pattern sp) (Content line) then report
      else if excluded (Exclusions sp) (Content line) then report
      else AddIssue report
             \<lparr>Type = ''security'', Severity = PSeverity sp, Message = PMessage sp,
              File = file, Line = LineNum line\<rparr>)"

definition checkLine :: "SecurityPattern list \<Rightarrow> string \<Rightarrow> Report \<Rightarrow> ChangedLine \<Rightarrow> Report" where
  "checkLine patterns file report line = foldl (checkPattern file line) report patterns"

text \<open>The body of the loop over the files: a file exempt from the security scan and a file
  whose diff cannot be had are passed over.\<close>

definition securityCheckFile :: "env \<Rightarrow> string \<Rightarrow> SecurityPattern list \<Rightarrow> Report \<Rightarrow> string \<Rightarrow> Report" where
  "securityCheckFile e target patterns report file =
     (if shouldSkipFileForSecurity file then report
      else (case getChangedLines e target file of
              Inl err \<Rightarrow> report
            | Inr changedLines \<Rightarrow> foldl (checkLine patterns file) report changedLines))"

definition RunSecurityChecksV2 :: "env \<Rightarrow> Report \<Rightarrow> string \<Rightarrow> Report" where
  "RunSecurityChecksV2 e report target =
     foldl (securityCheckFile e target GetSecurityPatterns) report (ChangedFiles report)"


section \<open>Whole-file checks (analyzer.go and the language files)\<close>

text \<open>\<open>runSecurityChecks\<close>, used by the full scan: each key of the map that occurs in the
  lower-cased content of a file gives one Issue without a line. The entries are walked in
  the order the environment gives for the file, which stands for the order of Go's
  \<open>range\<close> over the map and is a permutation of \<open>securityKeywords\<close>.\<close>

definition securityKeywords :: "(string \<times> string) list" where
  "securityKeywords =
     [(''password'', ''Hardcoded password detected''),
      (''api_key'', ''Hardcoded API key detected''),
      (''secret'', ''Hardcoded secret detected''),
      (''private_key'', ''Private key in code''),
      (''aws_access'', ''AWS credentials in code'')]"

definition keywordCheck :: "string \<Rightarrow> string \<Rightarrow> Report \<Rightarrow> string \<times> string \<Rightarrow> Report" where
  "keywordCheck file contentStr report entry =
     (if Contains contentStr (fst entry) then
        AddIssue report \<lparr>Type = ''security'', Severity = ''high'', Message = snd entry,
                         File = file, Line = 0\<rparr>
      else report)"

definition securityCheckWholeFile :: "env \<Rightarrow> Report \<Rightarrow> string \<Rightarrow> Report" where
  "securityCheckWholeFile e report file =
     (case read_file e file of
        None \<Rightarrow> report
      | Some content \<Rightarrow> foldl (keywordCheck file (ToLower content)) report (range_order e file))"

definition runSecurityChecks :: "env \<Rightarrow> Report \<Rightarrow> Report" where
  "runSecurityChecks e report = foldl (securityCheckWholeFile e) report (ChangedFiles report)"

text \<open>\<open>checkJavaScriptQuality\<close>: the tests made on each line, in the order of the
  source, each giving one Issue at line \<open>i + 1\<close>; then the test on the whole content,
  which gives an Issue without a line.\<close>

definition issueAt :: "string \<Rightarrow> string \<Rightarrow> string \<Rightarrow> string \<Rightarrow> nat \<Rightarrow> Issue" where
  "issueAt ty sev msg file n =
     \<lparr>Type = ty, Severity = sev, Message = msg, File = file, Line = of_nat n\<rparr>"

definition issueIf :: "bool \<Rightarrow> Issue \<Rightarrow> Issue list" where
  "issueIf b issue = (if b then [issue] else [])"

definition jsLineIssues :: "string \<Rightarrow> nat \<Rightarrow> string \<Rightarrow> Issue list" where
  "jsLineIssues file i line =
     (let lineLower = ToLower line in
      issueIf (length line > 120)
        (issueAt ''quality'' ''low'' ''Line too long (>120 characters)'' file (i + 1)) @
      issueIf (Contains line ''console.log'')
        (issueAt ''quality'' ''low'' ''console.log statement found - remove before production''
           file (i + 1)) @
      issueIf (Contains (TrimSpace line) ''debugger'')
        (issueAt ''quality'' ''medium'' ''debugger statement found - remove before production''
           file (i + 1)) @
      issueIf (Contains lineLower ''todo'' \<or> Contains lineLower ''fixme'')
        (issueAt ''quality'' ''low'' ''TODO/FIXME comment found'' file (i + 1)) @
      issueIf (Contains line ''eval('')
        (issueAt ''security'' ''high''
           ''eval() usage detected - potential code injection vulnerability'' file (i + 1)) @
      issueIf (Contains line ''new Function('' \<or> Contains line ''Function('')
        (issueAt ''security'' ''high''
           ''Function constructor usage - similar risks to eval()'' file (i + 1)) @
      issueIf (Contains line ''.innerHTML'' \<or> Contains line ''.outerHTML'')
        (issueAt ''security'' ''high'' ''innerHTML usage - potential XSS vulnerability''
           file (i + 1)) @
      issueIf (Contains line ''document.write'')
        (issueAt ''security'' ''high'' ''document.write usage - potential XSS vulnerability''
           file (i + 1)) @
      issueIf (Contains line ''child_process'' \<or> Contains line ''exec('' \<or>
            Contains line ''execSync('' \<or> Contains line ''spawn('')
        (issueAt ''security'' ''medium''
           ''child_process/exec usage - ensure input is sanitized to prevent command injection''
           file (i + 1)) @
      issueIf (Contains line ''Math.random()'')
        (issueAt ''security'' ''medium''
           ''Math.random() is not cryptographically secure - use crypto.randomBytes() for security-sensitive operations''
           file (i + 1)) @
      issueIf (Contains line ''require('' \<and> \<not> Contains line (''require('' @ [DQ]) \<and>
            \<not> Contains line (''require('' @ [SQ]))
        (issueAt ''security'' ''medium''
           ''Non-literal require() - potential arbitrary code execution'' file (i + 1)) @
      issueIf (Contains line ''rejectUnauthorized: false'' \<or>
            Contains line ''NODE_TLS_REJECT_UNAUTHORIZED'')
        (issueAt ''security'' ''high''
           ''SSL verification disabled - vulnerable to man-in-the-middle attacks''
           file (i + 1)))"

definition jsFileIssues :: "string \<Rightarrow> string \<Rightarrow> Issue list" where
  "jsFileIssues file contentStr =
     concat (map (\<lambda>(i, line). jsLineIssues file i line) (enumerate 0 (Split contentStr NL))) @
     issueIf (\<not> Contains contentStr ''use strict'' \<and> \<not> Contains contentStr ''import '' \<and>
           \<not> Contains contentStr ''export '')
       (issueAt ''quality'' ''low''
          (''Consider adding '' @ [SQ] @ ''use strict'' @ [SQ] @ '' or converting to ES module'')
          file 0)"

definition checkJavaScriptQuality :: "env \<Rightarrow> string \<Rightarrow> Report \<Rightarrow> Report" where
  "checkJavaScriptQuality e file report =
     (case read_file e file of
        None \<Rightarrow> report
      | Some contentStr \<Rightarrow> AddIssues report (jsFileIssues file contentStr))"

text \<open>
  The checkers of the other languages have the same frame: read the file, return when it
  cannot be read, and append Issues whose \<open>File\<close> is the file checked. Their rule lists
  play no part in the properties below and are parameters of the model: a function from
  the name and the content of a file to the Issues found.
\<close>

record lang_checks =
  pythonIssues :: "string \<Rightarrow> string \<Rightarrow> Issue list"
  typeScriptIssues :: "string \<Rightarrow> string \<Rightarrow> Issue list"
  rubyIssues :: "string \<Rightarrow> string \<Rightarrow> Issue list"
  dartIssues :: "string \<Rightarrow> string \<Rightarrow> Issue list"
  phpIssues :: "string \<Rightarrow> string \<Rightarrow> Issue list"
  javaKotlinIssues :: "string \<Rightarrow> string \<Rightarrow> Issue list"

definition checkQuality :: "(string \<Rightarrow> string \<Rightarrow> Issue list) \<Rightarrow> env \<Rightarrow> string \<Rightarrow> Report \<Rightarrow> Report" where
  "checkQuality rules e file report =
     (case read_file e file of
        None \<Rightarrow> report
      | Some contentStr \<Rightarrow>
          AddIssues report (map (\<lambda>i. i\<lparr>File := file\<rparr>) (rules file contentStr)))"

text \<open>\<open>runQualityChecks\<close>: the \<open>switch\<close> on the suffix of the file name.\<close>

definition qualityCheckFile :: "env \<Rightarrow> lang_checks \<Rightarrow> Report \<Rightarrow> string \<Rightarrow> Report" where
  "qualityCheckFile e cks report file =
     (if HasSuffix file ''.py'' then checkQuality (pythonIssues cks) e file report
      else if HasSuffix file ''.js'' \<or> HasSuffix file ''.jsx'' then
        checkJavaScriptQuality e file report
      else if HasSuffix file ''.ts'' \<or> HasSuffix file ''.tsx'' then
        checkQuality (typeScriptIssues cks) e file report
      else if HasSuffix file ''.rb'' then checkQuality (rubyIssues cks) e file report
      else if HasSuffix file ''.dart'' then checkQuality (dartIssues cks) e file report
      else if HasSuffix file ''.php'' then checkQuality (phpIssues cks) e file report
      else if HasSuffix file ''.java'' \<or> HasSuffix file ''.kt'' then
        checkQuality (javaKotlinIssues cks) e file report
      else report)"

definition runQualityChecks :: "env \<Rightarrow> lang_checks \<Rightarrow> Report \<Rightarrow> Report" where
  "runQualityChecks e cks report = foldl (qualityCheckFile e cks) report (ChangedFiles report)"

text \<open>\<open>GenerateReport\<close>. The target branch stored in the analyzer is not read again and
  is left out.\<close>

definition GenerateReport :: "env \<Rightarrow> lang_checks \<Rightarrow> Analyzer \<Rightarrow> string \<Rightarrow> bool \<Rightarrow> error + Report" where
  "GenerateReport e cks a target fullScan =
     (let report = NewReport (clock e) in
      if fullScan then
        (case analyzeFullCodebase e a report of
           Inl err \<Rightarrow> Inl (FullCodebaseAnalysisFailed err)
         | Inr r \<Rightarrow> Inr (runQualityChecks e cks (runSecurityChecks e r)))
      else
        (case analyzeGitDiff e a target report of
           Inl err \<Rightarrow> Inl (GitDiffAnalysisFailed err)
         | Inr r \<Rightarrow> Inr (runQualityChecks e cks (RunSecurityChecksV2 e r target))))"


section \<open>Notions used in the statements\<close>







text \<open>The lines of the file after the change that a hunk describes are numbered from
  \<open>A\<close> in their order; those that start with \<open>+\<close> and not with \<open>+++\<close>
  are the changed lines, each without its first character.\<close>

definition postChange :: "go_int \<Rightarrow> string list \<Rightarrow> ChangedLine list" where
  "postChange A ls =
     map (\<lambda>(i, l). \<lparr>LineNum = A + of_nat i, Content = drop 1 l\<rparr>)
         (filter (\<lambda>(i, l). isAddedLine l) (enumerate 0 ls))"




text \<open>A rule fires on a line when its pattern matches and none of its exclusions does;
  the Issue it then gives, and the lines of a file that the changed-line pass looks at.\<close>

definition ruleFires :: "SecurityPattern \<Rightarrow> string \<Rightarrow> bool" where
  "ruleFires sp content =
     (MatchString (Pattern sp) content \<and> \<not> (\<exists>exc \<in> set (Exclusions sp). MatchString exc content))"

definition ruleIssue :: "string \<Rightarrow> ChangedLine \<Rightarrow> SecurityPattern \<Rightarrow> Issue" where
  "ruleIssue file line sp =
     \<lparr>Type = ''security'', Severity = PSeverity sp, Message = PMessage sp,
      File = file, Line = LineNum line\<rparr>"

definition linesChecked :: "env \<Rightarrow> string \<Rightarrow> string \<Rightarrow> ChangedLine list" where
  "linesChecked e target file =
     (if shouldSkipFileForSecurity file then []
      else (case getChangedLines e target file of Inl err \<Rightarrow> [] | Inr changedLines \<Rightarrow> changedLines))"

text \<open>A pattern without glob metacharacters.\<close>

definition literalPattern :: "string \<Rightarrow> bool" where
  "literalPattern p = (\<forall>c \<in> set p. c \<noteq> CHR ''*'' \<and> c \<noteq> CHR ''?'' \<and> c \<noteq> CHR ''['' \<and> c \<noteq> BSL)"

text \<open>What \<open>find . -name *<ext> -type f\<close> promises: each line of its output ends in
  the extension.\<close>

definition find_contract :: "env \<Rightarrow> bool" where
  "find_contract e =
     (\<forall>ext \<in> set codeExtensions. \<forall>output. find_name e (''*'' @ ext) = Some output \<longrightarrow>
        (\<forall>f \<in> set (Split (TrimSpace output) NL). f \<noteq> [] \<longrightarrow> HasSuffix f ext))"

text \<open>The Issues that each check appends for one file.\<close>

definition patternIssues :: "string \<Rightarrow> ChangedLine \<Rightarrow> SecurityPattern \<Rightarrow> Issue list" where
  "patternIssues file line sp =
     (if MatchString (Pattern sp) (Content line) \<and> \<not> excluded (Exclusions sp) (Content line)
      then [\<lparr>Type = ''security'', Severity = PSeverity sp, Message = PMessage sp,
             File = file, Line = LineNum line\<rparr>]
      else [])"

definition changedLineIssues :: "SecurityPattern list \<Rightarrow> string \<Rightarrow> ChangedLine \<Rightarrow> Issue list" where
  "changedLineIssues patterns file line = concat (map (patternIssues file line) patterns)"

definition changedFileIssues :: "env \<Rightarrow> string \<Rightarrow> SecurityPattern list \<Rightarrow> string \<Rightarrow> Issue list" where
  "changedFileIssues e target patterns file =
     (if shouldSkipFileForSecurity file then []
      else (case getChangedLines e target file of
              Inl err \<Rightarrow> []
            | Inr changedLines \<Rightarrow> concat (map (changedLineIssues patterns file) changedLines)))"

definition keywordIssues :: "env \<Rightarrow> string \<Rightarrow> Issue list" where
  "keywordIssues e file =
     (case read_file e file of
        None \<Rightarrow> []
      | Some content \<Rightarrow>
          concat (map (\<lambda>entry. if Contains (ToLower content) (fst entry)
                                then [\<lparr>Type = ''security'', Severity = ''high'', Message = snd entry,
                                       File = file, Line = 0\<rparr>]
                                else [])
                      (range_order e file)))"

definition qualityIssues :: "env \<Rightarrow> lang_checks \<Rightarrow> string \<Rightarrow> Issue list" where
  "qualityIssues e cks file = Issues (qualityCheckFile e cks (NewReport 0) file)"

text \<open>The scope of a run in changed-file mode, and the report before the checks run.\<close>

definition changedFiles :: "Analyzer \<Rightarrow> string \<Rightarrow> string list" where
  "changedFiles a output =
     filter (\<lambda>f. f \<noteq> [] \<and> \<not> shouldIgnoreFile a f) (Split (TrimSpace output) NL)"

definition scopeReport :: "env \<Rightarrow> string list \<Rightarrow> Report" where
  "scopeReport e files = appendFiles (NewReport (clock e)) files"


section \<open>Concrete inputs\<close>

text \<open>An Issue whose severity is none of the three strings of the summary, and the three
  Issues of the repository's test of \<open>AddIssue\<close>.\<close>

definition info_issue :: Issue where
  "info_issue = \<lparr>Type = ''quality'', Severity = ''info'', Message = ''note'',
                  File = ''a.go'', Line = 0\<rparr>"

definition test_issues :: "Issue list" where
  "test_issues =
     [\<lparr>Type = ''security'', Severity = ''high'', Message = ''Test high'', File = [], Line = 0\<rparr>,
      \<lparr>Type = ''quality'', Severity = ''medium'', Message = ''Test medium'', File = [], Line = 0\<rparr>,
      \<lparr>Type = ''quality'', Severity = ''low'', Message = ''Test low'', File = [], Line = 0\<rparr>]"







text \<open>A line with a hard-coded password, and a line on which the exclusion for the
  \<open>type\<close> attribute matches as well.\<close>

definition password_line :: string where
  \<open>password_line = ''password = "supersecret1"''\<close>

definition input_type_line :: string where
  \<open>input_type_line = ''{ type: "password", password: "supersecret1" }''\<close>

text \<open>An analyzer with the one pattern \<open>vendor/\<close>, and the ignore file of the
  repository's test.\<close>

definition vendor_analyzer :: Analyzer where
  "vendor_analyzer = \<lparr>repoPath = ''.'', ignorePatterns = [''vendor/''], verbose = False,
                       targetBranch = []\<rparr>"

definition ignore_env :: env where
  "ignore_env =
     \<lparr>git_diff_names = (\<lambda>r. None), git_diff_file = (\<lambda>r f. None), find_name = (\<lambda>p. None),
      read_file = (\<lambda>f. if f = ''.autoreview-ignore''
                         then Some ([NL] @ ''vendor/'' @ [NL] @ ''*.min.js'' @ [NL] @ ''test_data/'' @ [NL])
                         else None),
      clock = 0, range_order = (\<lambda>f. securityKeywords)\<rparr>"

text \<open>Empty rule lists for the languages whose checkers are parameters.\<close>

definition no_rules :: lang_checks where
  "no_rules = \<lparr>pythonIssues = (\<lambda>f c. []), typeScriptIssues = (\<lambda>f c. []), rubyIssues = (\<lambda>f c. []),
               dartIssues = (\<lambda>f c. []), phpIssues = (\<lambda>f c. []), javaKotlinIssues = (\<lambda>f c. [])\<rparr>"

definition plain_analyzer :: Analyzer where
  "plain_analyzer = \<lparr>repoPath = ''.'', ignorePatterns = [], verbose = False, targetBranch = []\<rparr>"

text \<open>A tree with two clean JavaScript modules and no usable git.\<close>

definition clean_tree_env :: env where
  "clean_tree_env =
     \<lparr>git_diff_names = (\<lambda>r. None), git_diff_file = (\<lambda>r f. None),
      find_name = (\<lambda>p. if p = ''*.js'' then Some (''./a.js'' @ [NL] @ ''./lib/b.js'' @ [NL]) else Some []),
      read_file = (\<lambda>f. if f = ''./a.js'' \<or> f = ''./lib/b.js'' then Some (''export const x = 1;'' @ [NL]) else None),
      clock = 0, range_order = (\<lambda>f. securityKeywords)\<rparr>"

text \<open>The same tree when git answers with an empty list of changed files.\<close>

definition empty_diff_env :: env where
  "empty_diff_env = clean_tree_env\<lparr>git_diff_names := (\<lambda>r. Some [])\<rparr>"

definition password_diff :: string where
  "password_diff = concat (map (\<lambda>l. l @ [NL])
     [''diff --git a/login.js b/login.js'',
      ''new file mode 100644'',
      ''index 0000000..5d3c2a1'',
      ''--- /dev/null'',
      ''+++ b/login.js'',
      ''@@ -0,0 +1 @@'',
      ''+'' @ password_line])"

text \<open>A lock file and a script are changed; both hold the same line.\<close>

definition lock_env :: env where
  "lock_env =
     \<lparr>git_diff_names = (\<lambda>r. if r = ''origin/main..HEAD''
                              then Some (''package-lock.json'' @ [NL] @ ''login.js'' @ [NL]) else None),
      git_diff_file = (\<lambda>r f. if r = ''origin/main..HEAD'' then Some password_diff else None),
      find_name = (\<lambda>p. if p = ''*.js'' then Some (''./login.js'' @ [NL]) else Some []),
      read_file = (\<lambda>f. Some (password_line @ [NL])),
      clock = 0, range_order = (\<lambda>f. securityKeywords)\<rparr>"

text \<open>The same changed script when its new line is the line with the \<open>type\<close>
  attribute.\<close>

definition input_type_diff :: string where
  "input_type_diff = concat (map (\<lambda>l. l @ [NL])
     [''diff --git a/login.js b/login.js'',
      ''new file mode 100644'',
      ''index 0000000..5d3c2a1'',
      ''--- /dev/null'',
      ''+++ b/login.js'',
      ''@@ -0,0 +1 @@'',
      ''+'' @ input_type_line])"

definition input_type_env :: env where
  "input_type_env =
     lock_env\<lparr>git_diff_file := (\<lambda>r f. if r = ''origin/main..HEAD'' then Some input_type_diff else None)\<rparr>"

text \<open>A tree with a lock file that names a package \<open>password-hash\<close>, and with a
  script whose name holds a newline, \<open>package-lock.json\<close> before it and
  \<open>x.js\<close> after it: \<open>find\<close> prints the name as two lines.\<close>

definition newline_name_env :: env where
  \<open>newline_name_env =
     \<lparr>git_diff_names = (\<lambda>r. None), git_diff_file = (\<lambda>r f. None),
      find_name = (\<lambda>p. if p = ''*.js'' then Some (''./package-lock.json'' @ [NL] @ ''x.js'' @ [NL])
                         else Some []),
      read_file = (\<lambda>f. if f = ''./package-lock.json''
                         then Some (''"password-hash": "1.0.0"'' @ [NL]) else None),
      clock = 0, range_order = (\<lambda>f. securityKeywords)\<rparr>\<close>

text \<open>A report whose scope is a lock file.\<close>

definition lock_scope :: Report where
  "lock_scope = \<lparr>Timestamp = 0, ChangedFiles = [''go.sum''], Issues = [],
                  Summary = zeroSummary\<rparr>"

text \<open>The Issues that appear in the reports below.\<close>

definition password_issue :: "string \<Rightarrow> Issue" where
  "password_issue f = \<lparr>Type = ''security'', Severity = ''high'',
      Message = ''Potential hardcoded password detected'', File = f, Line = 1\<rparr>"

definition keyword_issue :: "string \<Rightarrow> Issue" where
  "keyword_issue f = \<lparr>Type = ''security'', Severity = ''high'',
      Message = ''Hardcoded password detected'', File = f, Line = 0\<rparr>"

definition secret_issue :: "string \<Rightarrow> Issue" where
  "secret_issue f = \<lparr>Type = ''security'', Severity = ''high'',
      Message = ''Hardcoded secret detected'', File = f, Line = 0\<rparr>"

definition strict_issue :: "string \<Rightarrow> Issue" where
  "strict_issue f = \<lparr>Type = ''quality'', Severity = ''low'',
      Message = ''Consider adding '' @ [SQ] @ ''use strict'' @ [SQ] @ '' or converting to ES module'',
      File = f, Line = 0\<rparr>"

definition preexisting_diff :: string where
  "preexisting_diff = concat (map (\<lambda>l. l @ [NL])
     [''diff --git a/app.js b/app.js'',
      ''index 83db48f..bf3a1c2 100644'',
      ''--- a/app.js'',
      ''+++ b/app.js'',
      ''@@ -1,0 +2 @@'',
      ''+export const x = 1;''])"

text \<open>A script whose first line is old and calls \<open>eval\<close>, and whose second line is new.\<close>

definition preexisting_env :: env where
  "preexisting_env =
     \<lparr>git_diff_names = (\<lambda>r. if r = ''origin/main..HEAD'' then Some (''app.js'' @ [NL]) else None),
      git_diff_file = (\<lambda>r f. if r = ''origin/main..HEAD'' \<and> f = ''app.js''
                               then Some preexisting_diff else None),
      find_name = (\<lambda>p. None),
      read_file = (\<lambda>f. if f = ''app.js''
                         then Some (''eval(input);'' @ [NL] @ ''export const x = 1;'' @ [NL])
                         else None),
      clock = 0, range_order = (\<lambda>f. securityKeywords)\<rparr>"

definition eval_issue :: "string \<Rightarrow> Issue" where
  "eval_issue f = \<lparr>Type = ''security'', Severity = ''high'',
      Message = ''eval() usage detected - potential code injection vulnerability'',
      File = f, Line = 1\<rparr>"

text \<open>A report with one file in scope.\<close>

definition login_scope :: Report where
  "login_scope = \<lparr>Timestamp = 0, ChangedFiles = [''login.js''], Issues = [],
                   Summary = zeroSummary\<rparr>"

text \<open>The diff of the one changed file cannot be had; the file itself can be read.\<close>

definition broken_diff_env :: env where
  "broken_diff_env =
     \<lparr>git_diff_names = (\<lambda>r. if r = ''origin/main..HEAD'' then Some (''app.js'' @ [NL]) else None),
      git_diff_file = (\<lambda>r f. None),
      find_name = (\<lambda>p. None),
      read_file = (\<lambda>f. if f = ''app.js'' then Some (''eval(input);'' @ [NL]) else None),
      clock = 0, range_order = (\<lambda>f. securityKeywords)\<rparr>"

text \<open>The changed file has a diff and cannot be read.\<close>

definition unreadable_env :: env where
  "unreadable_env = lock_env\<lparr>git_diff_names := (\<lambda>r. Some (''login.js'' @ [NL])),
                             read_file := (\<lambda>f. None)\<rparr>"

text \<open>Of two changed files the first has neither a diff nor a readable content.\<close>

definition partial_env :: env where
  "partial_env =
     \<lparr>git_diff_names = (\<lambda>r. if r = ''origin/main..HEAD''
                              then Some (''app.js'' @ [NL] @ ''login.js'' @ [NL]) else None),
      git_diff_file = (\<lambda>r f. if r = ''origin/main..HEAD'' \<and> f = ''login.js''
                               then Some password_diff else None),
      find_name = (\<lambda>p. None),
      read_file = (\<lambda>f. if f = ''login.js'' then Some (password_line @ [NL]) else None),
      clock = 0, range_order = (\<lambda>f. securityKeywords)\<rparr>"


section \<open>Properties of the report\<close>

lemma countSeverities_frame:
  "TotalFiles (countSeverities s xs) = TotalFiles s \<and>
   TotalIssues (countSeverities s xs) = TotalIssues s"
  by (induction xs arbitrary: s) simp_all

lemma countSeverities_sum:
  "HighSeverity (countSeverities s xs) + MediumSeverity (countSeverities s xs)
     + LowSeverity (countSeverities s xs)
   = HighSeverity s + MediumSeverity s + LowSeverity s + int (length (filter knownSeverity xs))"
  by (induction xs arbitrary: s) (simp_all add: knownSeverity_def)

lemma AddIssue_Issues [simp]: "Issues (AddIssue r i) = Issues r @ [i]"
  by (simp add: AddIssue_def updateSummary_def)

lemma AddIssue_ChangedFiles [simp]: "ChangedFiles (AddIssue r i) = ChangedFiles r"
  by (simp add: AddIssue_def updateSummary_def)

lemma AddIssue_Timestamp [simp]: "Timestamp (AddIssue r i) = Timestamp r"
  by (simp add: AddIssue_def updateSummary_def)

lemma AddIssue_TotalIssues:
  "TotalIssues (Summary (AddIssue r i)) = int (length (Issues r)) + 1"
  by (simp add: AddIssue_def updateSummary_def countSeverities_frame)

lemma AddIssue_TotalFiles:
  "TotalFiles (Summary (AddIssue r i)) = int (length (ChangedFiles r))"
  by (simp add: AddIssue_def updateSummary_def countSeverities_frame)

lemma AddIssue_severities:
  "HighSeverity (Summary (AddIssue r i)) + MediumSeverity (Summary (AddIssue r i))
     + LowSeverity (Summary (AddIssue r i))
   = int (length (filter knownSeverity (Issues r @ [i])))"
  using countSeverities_sum [of
      "(Summary r)\<lparr>TotalFiles := int (length (ChangedFiles r)),
                   TotalIssues := int (length (Issues r @ [i])),
                   HighSeverity := 0, MediumSeverity := 0, LowSeverity := 0\<rparr>"
      "Issues r @ [i]"]
  by (simp add: AddIssue_def updateSummary_def)

lemma AddIssues_Issues [simp]: "Issues (AddIssues r is) = Issues r @ is"
  by (induction "is" arbitrary: r) (simp_all add: AddIssues_def)

lemma AddIssues_ChangedFiles [simp]: "ChangedFiles (AddIssues r is) = ChangedFiles r"
  by (induction "is" arbitrary: r) (simp_all add: AddIssues_def)

lemma AddIssues_Nil [simp]: "AddIssues r [] = r"
  by (simp add: AddIssues_def)

lemma AddIssues_snoc: "AddIssues r (is @ [i]) = AddIssue (AddIssues r is) i"
  by (simp add: AddIssues_def)

lemma AddIssues_append: "AddIssues r (is @ js) = AddIssues (AddIssues r is) js"
  by (simp add: AddIssues_def)

lemma AddIssues_summary:
  assumes "r = NewReport now \<or> is \<noteq> []"
  shows "TotalIssues (Summary (AddIssues r is)) = int (length (Issues (AddIssues r is)))"
    and "HighSeverity (Summary (AddIssues r is)) + MediumSeverity (Summary (AddIssues r is))
          + LowSeverity (Summary (AddIssues r is))
         = int (length (filter knownSeverity (Issues (AddIssues r is))))"
proof -
  show "TotalIssues (Summary (AddIssues r is)) = int (length (Issues (AddIssues r is)))"
  proof (cases "is" rule: rev_cases)
    case Nil
    with assms show ?thesis by (simp add: NewReport_def zeroSummary_def)
  next
    case (snoc js j)
    then show ?thesis by (simp add: AddIssues_snoc AddIssue_TotalIssues)
  qed
  show "HighSeverity (Summary (AddIssues r is)) + MediumSeverity (Summary (AddIssues r is))
          + LowSeverity (Summary (AddIssues r is))
         = int (length (filter knownSeverity (Issues (AddIssues r is))))"
  proof (cases "is" rule: rev_cases)
    case Nil
    with assms show ?thesis by (simp add: NewReport_def zeroSummary_def)
  next
    case (snoc js j)
    show ?thesis
      unfolding snoc AddIssues_snoc
      using AddIssue_severities [of "AddIssues r js" j] by simp
  qed
qed

text \<open>
  C2, as stated, fails: the severity of an Issue is any string, and \<open>updateSummary\<close>
  counts only the three strings \<open>high\<close>, \<open>medium\<close> and \<open>low\<close>. After one
  \<open>AddIssue\<close> of an Issue of severity \<open>info\<close> the total is 1 and the three counts sum
  to 0.
\<close>

theorem severity_counts_miss_other_strings:
  "TotalIssues (Summary (AddIssue (NewReport 0) info_issue)) = 1 \<and>
   HighSeverity (Summary (AddIssue (NewReport 0) info_issue))
     + MediumSeverity (Summary (AddIssue (NewReport 0) info_issue))
     + LowSeverity (Summary (AddIssue (NewReport 0) info_issue)) = 0"
  by (simp add: AddIssue_def updateSummary_def NewReport_def zeroSummary_def info_issue_def)

text \<open>
  C2, amended: for a new report after any sequence of \<open>AddIssue\<close> calls, and for any
  report after at least one call, \<open>total_issues\<close> is the length of the Issue list, and
  the high, medium and low counts sum to \<open>total_issues\<close> when the severity of every
  Issue is one of these three strings. In general they sum to the number of Issues with
  such a severity.
\<close>

theorem summary_follows_issues:
  assumes "r = NewReport now \<or> is \<noteq> []"
  shows "TotalIssues (Summary (AddIssues r is)) = int (length (Issues (AddIssues r is))) \<and>
         HighSeverity (Summary (AddIssues r is)) + MediumSeverity (Summary (AddIssues r is))
           + LowSeverity (Summary (AddIssues r is))
         = int (length (filter knownSeverity (Issues (AddIssues r is)))) \<and>
         ((\<forall>i \<in> set (Issues (AddIssues r is)). knownSeverity i) \<longrightarrow>
            HighSeverity (Summary (AddIssues r is)) + MediumSeverity (Summary (AddIssues r is))
              + LowSeverity (Summary (AddIssues r is))
            = TotalIssues (Summary (AddIssues r is)))"
  using AddIssues_summary [OF assms] by (simp add: filter_id_conv)

theorem summary_follows_issues_witness:
  "test_issues \<noteq> [] \<and>
   list_all knownSeverity (Issues (AddIssues (NewReport 0) test_issues)) \<and>
   TotalIssues (Summary (AddIssues (NewReport 0) test_issues)) = 3 \<and>
   HighSeverity (Summary (AddIssues (NewReport 0) test_issues))
     + MediumSeverity (Summary (AddIssues (NewReport 0) test_issues))
     + LowSeverity (Summary (AddIssues (NewReport 0) test_issues)) = 3"
  using summary_follows_issues [of "NewReport 0" 0 test_issues]
  by (simp add: test_issues_def knownSeverity_def NewReport_def list_all_iff)


section \<open>The matcher and the language of a pattern\<close>

text \<open>
  The matcher decides what the patterns mean: \<open>MatchString\<close> holds exactly when some
  substring of the text is in the language of the expression (\<open>MatchString_lang\<close>).
\<close>

lemma star_Cons:
  "x # w \<in> star A \<longleftrightarrow> (\<exists>u v. w = u @ v \<and> x # u \<in> A \<and> v \<in> star A)"
proof
  assume "x # w \<in> star A"
  then show "\<exists>u v. w = u @ v \<and> x # u \<in> A \<and> v \<in> star A"
  proof (induction "x # w" arbitrary: rule: star.induct)
    case (star_step u v)
    show ?case
    proof (cases u)
      case Nil
      with star_step show ?thesis by simp
    next
      case (Cons y u')
      with star_step.hyps star_step.hyps(4) show ?thesis by auto
    qed
  qed
next
  assume "\<exists>u v. w = u @ v \<and> x # u \<in> A \<and> v \<in> star A"
  then obtain u v where "w = u @ v" "x # u \<in> A" "v \<in> star A" by blast
  then show "x # w \<in> star A" using star_step [of "x # u" A v] by simp
qed

lemma nullable_lang: "nullable r \<longleftrightarrow> [] \<in> lang ci r"
  by (induction r) (auto intro: star_empty)

lemma lang_cat: "lang ci (cat r s) = lang ci (Cat r s)"
  by (cases r) auto

lemma lang_alt: "lang ci (alt r s) = lang ci (Alt r s)"
  by (cases r; cases s) auto

lemma lang_deriv: "w \<in> lang ci (deriv ci x r) \<longleftrightarrow> x # w \<in> lang ci r"
proof (induction r arbitrary: w)
  case (Cat r s)
  show ?case
  proof
    assume "w \<in> lang ci (deriv ci x (Cat r s))"
    then consider u v where "w = u @ v" "u \<in> lang ci (deriv ci x r)" "v \<in> lang ci s"
      | "nullable r" "w \<in> lang ci (deriv ci x s)"
      by (auto simp: lang_cat lang_alt split: if_splits)
    then show "x # w \<in> lang ci (Cat r s)"
    proof cases
      case 1
      then have "x # u \<in> lang ci r" using Cat.IH(1) by simp
      with 1 have "x # w = (x # u) @ v \<and> x # u \<in> lang ci r \<and> v \<in> lang ci s" by simp
      then show ?thesis unfolding lang.simps by blast
    next
      case 2
      then have "[] \<in> lang ci r" "x # w \<in> lang ci s"
        using nullable_lang Cat.IH(2) by auto
      then have "[] @ (x # w) \<in> lang ci (Cat r s)" unfolding lang.simps by blast
      then show ?thesis by simp
    qed
  next
    assume "x # w \<in> lang ci (Cat r s)"
    then obtain u v where uv: "x # w = u @ v" "u \<in> lang ci r" "v \<in> lang ci s" by auto
    show "w \<in> lang ci (deriv ci x (Cat r s))"
    proof (cases u)
      case Nil
      with uv have "nullable r" "w \<in> lang ci (deriv ci x s)"
        using nullable_lang Cat.IH(2) by auto
      then show ?thesis by (simp add: lang_alt)
    next
      case (Cons y u')
      with uv have "u' \<in> lang ci (deriv ci x r)" "w = u' @ v" using Cat.IH(1) by auto
      with uv show ?thesis by (auto simp: lang_cat lang_alt)
    qed
  qed
next
  case (Star r)
  show ?case
    using Star.IH by (auto simp: lang_cat star_Cons)
qed (auto simp: lang_alt)

lemma prefixMatch_lang:
  "prefixMatch ci r s \<longleftrightarrow> (\<exists>u v. s = u @ v \<and> u \<in> lang ci r)"
proof (induction s arbitrary: r)
  case Nil
  then show ?case by (simp add: nullable_lang)
next
  case (Cons x s)
  show ?case
  proof
    assume "prefixMatch ci r (x # s)"
    then consider "nullable r" | "prefixMatch ci (deriv ci x r) s" by auto
    then show "\<exists>u v. x # s = u @ v \<and> u \<in> lang ci r"
    proof cases
      case 1
      then have "x # s = [] @ (x # s) \<and> [] \<in> lang ci r" using nullable_lang by simp
      then show ?thesis by blast
    next
      case 2
      then obtain u v where "s = u @ v" "u \<in> lang ci (deriv ci x r)" using Cons.IH by blast
      then have "x # s = (x # u) @ v \<and> x # u \<in> lang ci r" by (simp add: lang_deriv)
      then show ?thesis by blast
    qed
  next
    assume "\<exists>u v. x # s = u @ v \<and> u \<in> lang ci r"
    then obtain u v where uv: "x # s = u @ v" "u \<in> lang ci r" by blast
    show "prefixMatch ci r (x # s)"
    proof (cases u)
      case Nil
      with uv have "nullable r" using nullable_lang [of r ci] by simp
      then show ?thesis by simp
    next
      case (Cons y u')
      with uv have "s = u' @ v" "u' \<in> lang ci (deriv ci x r)" by (auto simp: lang_deriv)
      then have "prefixMatch ci (deriv ci x r) s" using Cons.IH by blast
      then show ?thesis by simp
    qed
  qed
qed

lemma search_lang:
  "search ci r s \<longleftrightarrow> (\<exists>p u v. s = p @ u @ v \<and> u \<in> lang ci r)"
proof (induction s)
  case Nil
  then show ?case by (simp add: nullable_lang)
next
  case (Cons x s)
  show ?case
  proof
    assume "search ci r (x # s)"
    then consider "prefixMatch ci r (x # s)" | "search ci r s" by auto
    then show "\<exists>p u v. x # s = p @ u @ v \<and> u \<in> lang ci r"
    proof cases
      case 1
      then obtain u v where "x # s = u @ v" "u \<in> lang ci r" using prefixMatch_lang by blast
      then have "x # s = [] @ u @ v \<and> u \<in> lang ci r" by simp
      then show ?thesis by blast
    next
      case 2
      then obtain p u v where "s = p @ u @ v" "u \<in> lang ci r" using Cons.IH by blast
      then have "x # s = (x # p) @ u @ v \<and> u \<in> lang ci r" by simp
      then show ?thesis by blast
    qed
  next
    assume "\<exists>p u v. x # s = p @ u @ v \<and> u \<in> lang ci r"
    then obtain p u v where puv: "x # s = p @ u @ v" "u \<in> lang ci r" by blast
    show "search ci r (x # s)"
    proof (cases p)
      case Nil
      with puv have "prefixMatch ci r (x # s)" using prefixMatch_lang by auto
      then show ?thesis by simp
    next
      case (Cons y p')
      with puv have "s = p' @ u @ v" by simp
      with puv(2) have "search ci r s" using Cons.IH by blast
      then show ?thesis by simp
    qed
  qed
qed

lemma MatchString_lang:
  "MatchString rx s \<longleftrightarrow> (\<exists>p u v. s = p @ u @ v \<and> u \<in> lang (foldCase rx) (expr rx))"
  by (simp add: MatchString_def search_lang)


section \<open>Properties of a security rule\<close>

lemma excluded_iff: "excluded excs content \<longleftrightarrow> (\<exists>exc \<in> set excs. MatchString exc content)"
  by (induction excs) auto

lemma checkPattern_Issues:
  "Issues (checkPattern file line report sp) =
     (if MatchString (Pattern sp) (Content line) \<and>
         (\<forall>exc \<in> set (Exclusions sp). \<not> MatchString exc (Content line))
      then Issues report @ [\<lparr>Type = ''security'', Severity = PSeverity sp, Message = PMessage sp,
                              File = file, Line = LineNum line\<rparr>]
      else Issues report)"
  by (simp add: checkPattern_def excluded_iff)

lemma password_line_matches: "MatchString (Pattern hardcoded_password) password_line"
  by code_simp

lemma password_line_not_excluded:
  "\<forall>exc \<in> set (Exclusions hardcoded_password). \<not> MatchString exc password_line"
  by code_simp

lemma input_type_line_matches: "MatchString (Pattern hardcoded_password) input_type_line"
  by code_simp

lemma input_type_line_excluded: "MatchString exclude_input_type input_type_line"
  by code_simp

lemma exclude_input_type_mem: "exclude_input_type \<in> set (Exclusions hardcoded_password)"
  by (simp add: hardcoded_password_def)

lemma patternIssues_fires:
  "patternIssues file line sp
     = (if ruleFires sp (Content line) then [ruleIssue file line sp] else [])"
  by (simp add: patternIssues_def ruleFires_def ruleIssue_def excluded_iff)

lemma changedLineIssues_fires:
  "changedLineIssues patterns file
     = (\<lambda>line. map (ruleIssue file line) (filter (\<lambda>sp. ruleFires sp (Content line)) patterns))"
proof
  fix line
  show "changedLineIssues patterns file line
          = map (ruleIssue file line) (filter (\<lambda>sp. ruleFires sp (Content line)) patterns)"
    unfolding changedLineIssues_def
    by (induction patterns) (simp_all add: patternIssues_fires)
qed

lemma changedFileIssues_fires:
  "changedFileIssues e target patterns
     = (\<lambda>file. concat (map (\<lambda>line. map (ruleIssue file line)
                                        (filter (\<lambda>sp. ruleFires sp (Content line)) patterns))
                           (linesChecked e target file)))"
  by (rule ext)
     (simp add: changedFileIssues_def linesChecked_def changedLineIssues_fires split: sum.splits)

lemma hardcoded_password_listed: "hardcoded_password \<in> set GetSecurityPatterns"
  by (simp add: GetSecurityPatterns_def)

lemma password_line_fires: "ruleFires hardcoded_password password_line"
  using password_line_matches password_line_not_excluded by (simp add: ruleFires_def)

lemma input_type_never_fires:
  "MatchString exclude_input_type content \<Longrightarrow> \<not> ruleFires hardcoded_password content"
  using exclude_input_type_mem by (auto simp: ruleFires_def)


section \<open>Properties of the diff line extractor\<close>









lemma postChange_Nil [simp]: "postChange A [] = []"
  by (simp add: postChange_def)








lemma Sscanf_d_stops_at_other_character:
  "Sscanf_d ''1_0'' = Some 1 \<and> Sscanf_d ''12 @@'' = Some 12 \<and> Sscanf_d ''x'' = None"
  by (simp add: Sscanf_d_def isSpace_def isDigit_def between_def decimal_def)



















section \<open>Properties of the ignore patterns\<close>

lemma literalPattern_Cons:
  "literalPattern (c # cs) \<longleftrightarrow>
     c \<noteq> CHR ''*'' \<and> c \<noteq> CHR ''?'' \<and> c \<noteq> CHR ''['' \<and> c \<noteq> BSL \<and> literalPattern cs"
  by (auto simp: literalPattern_def)

lemma scanLen_literal: "literalPattern p \<Longrightarrow> scanLen False p = length p"
  by (induction p) (auto simp: literalPattern_Cons)

lemma scanChunk_literal:
  assumes "literalPattern p" "p \<noteq> []"
  shows "scanChunk p = (False, p, [])"
proof -
  from assms obtain c cs where p: "p = c # cs" by (cases p) auto
  with assms(1) have "c \<noteq> CHR ''*''" by (simp add: literalPattern_Cons)
  with p scanLen_literal [OF assms(1)] show ?thesis
    by (simp add: scanChunk_def Let_def del: scanLen.simps)
qed

lemma matchChunkFrom_literal:
  "literalPattern chunk \<Longrightarrow>
   matchChunkFrom failed chunk s =
     (if \<not> failed \<and> prefix chunk s then Matched (drop (length chunk) s) else NoMatch)"
proof (induction chunk arbitrary: failed s)
  case Nil
  then show ?case by simp
next
  case (Cons c chunk)
  then have c: "c \<noteq> CHR ''*''" "c \<noteq> CHR ''?''" "c \<noteq> CHR ''[''" "c \<noteq> BSL"
    and lit: "literalPattern chunk"
    by (simp_all add: literalPattern_Cons)
  show ?case
  proof (cases s)
    case Nil
    with c Cons.IH [OF lit] show ?thesis by simp
  next
    case (Cons x xs)
    with c Cons.IH [OF lit] show ?thesis by (auto simp: Let_def)
  qed
qed

lemma Match_literal: "literalPattern p \<Longrightarrow> Match p name \<longleftrightarrow> name = p"
proof (cases p)
  case Nil
  then show ?thesis by auto
next
  case (Cons c cs)
  assume lit: "literalPattern p"
  have sc: "scanChunk (c # cs) = (False, c # cs, [])"
    using scanChunk_literal [OF lit] Cons by simp
  have mc: "matchChunk (c # cs) name =
     (if prefix (c # cs) name then Matched (drop (length (c # cs)) name) else NoMatch)"
    using matchChunkFrom_literal [OF lit, of False name] Cons by (simp add: matchChunk_def)
  show ?thesis
  proof (cases "prefix (c # cs) name")
    case True
    then obtain t where t: "name = (c # cs) @ t" by (auto simp: prefix_def)
    with sc mc Cons show ?thesis by (cases t) (simp_all del: scanLen.simps)
  next
    case False
    with sc mc Cons show ?thesis by (auto simp del: scanLen.simps)
  qed
qed

lemma ignoredBy_iff:
  "ignoredBy patterns filePath \<longleftrightarrow> (\<exists>p \<in> set patterns. matchesIgnorePattern p filePath)"
  by (induction patterns) auto

lemma dir_pattern_prefix:
  assumes "literalPattern dir"
  shows "matchesIgnorePattern (dir @ ''/'') filePath \<longleftrightarrow> HasPrefix filePath (dir @ ''/'')"
proof -
  have "literalPattern (dir @ ''/'')" using assms by (auto simp: literalPattern_def)
  then have "Match (dir @ ''/'') filePath \<longleftrightarrow> filePath = dir @ ''/''" by (rule Match_literal)
  then show ?thesis
    by (auto simp: matchesIgnorePattern_def HasSuffix_def TrimSuffix_def HasPrefix_def Let_def)
qed

text \<open>
  C7, as stated, fails: for the pattern \<open>vendor/\<close> the path \<open>vendor\<close>, which
  equals the prefix, is not ignored.
\<close>

theorem bare_prefix_not_ignored: "\<not> shouldIgnoreFile vendor_analyzer ''vendor''"
  by code_simp

text \<open>
  C7, amended: for a pattern that ends in the separator and has no glob metacharacter, a
  path is ignored by the pattern if and only if it starts with the pattern, that is with
  the prefix followed by the separator; the path equal to the bare prefix is not ignored.
  A file is ignored when some pattern of the analyzer ignores it. So \<open>vendor/\<close>
  excludes \<open>vendor/pkg/file.go\<close> and excludes neither \<open>vendor2/file.go\<close> nor
  \<open>vendor\<close>.
\<close>

theorem directory_pattern_is_prefix:
  assumes "literalPattern dir"
  shows "(matchesIgnorePattern (dir @ ''/'') filePath \<longleftrightarrow> HasPrefix filePath (dir @ ''/'')) \<and>
         \<not> matchesIgnorePattern (dir @ ''/'') dir \<and>
         (shouldIgnoreFile a filePath \<longleftrightarrow>
            (\<exists>p \<in> set (ignorePatterns a). matchesIgnorePattern p filePath))"
  using dir_pattern_prefix [OF assms]
  by (simp add: shouldIgnoreFile_def ignoredBy_iff HasPrefix_def)

lemma ignore_env_patterns: "ignorePatterns (NewAnalyzer ignore_env ''.'' False) = [''vendor/'', ''*.min.js'', ''test_data/'']"
  by (simp add: NewAnalyzer_def loadIgnorePatterns_def ignore_env_def TrimSpace_def isSpace_def HasPrefix_def)

lemma glob_misses_vendor2: "\<not> matchesIgnorePattern ''*.min.js'' ''vendor2/file.go''" 
  by code_simp

lemma test_data_misses_vendor2: "\<not> matchesIgnorePattern ''test_data/'' ''vendor2/file.go''" 
  by code_simp

lemma glob_misses_vendor: "\<not> matchesIgnorePattern ''*.min.js'' ''vendor''" 
  by code_simp

lemma test_data_misses_vendor: "\<not> matchesIgnorePattern ''test_data/'' ''vendor''" 
  by code_simp

theorem directory_pattern_is_prefix_witness:
  "literalPattern ''vendor'' \<and>
   shouldIgnoreFile (NewAnalyzer ignore_env ''.'' False) ''vendor/pkg/file.go'' \<and>
   \<not> shouldIgnoreFile (NewAnalyzer ignore_env ''.'' False) ''vendor2/file.go'' \<and>
   \<not> shouldIgnoreFile (NewAnalyzer ignore_env ''.'' False) ''vendor''"
  using directory_pattern_is_prefix [of "''vendor''" "''vendor/pkg/file.go''" "NewAnalyzer ignore_env ''.'' False"]
        directory_pattern_is_prefix [of "''vendor''" "''vendor2/file.go''" "NewAnalyzer ignore_env ''.'' False"]
        directory_pattern_is_prefix [of "''vendor''" "''vendor''" "NewAnalyzer ignore_env ''.'' False"]
        glob_misses_vendor2 test_data_misses_vendor2 glob_misses_vendor test_data_misses_vendor
  by (simp add: ignore_env_patterns literalPattern_def HasPrefix_def)


section \<open>The Issues of a run\<close>

lemma foldl_AddIssues:
  assumes "\<And>r x. f r x = AddIssues r (g x)"
  shows "foldl f r xs = AddIssues r (concat (map g xs))"
proof (induction xs arbitrary: r)
  case Nil
  then show ?case by simp
next
  case (Cons x xs)
  then show ?case by (simp add: assms AddIssues_append)
qed

lemma AddIssues_single: "AddIssues r [i] = AddIssue r i"
  by (simp add: AddIssues_def)

lemma checkPattern_AddIssues:
  "checkPattern file line report sp = AddIssues report (patternIssues file line sp)"
  by (simp add: checkPattern_def patternIssues_def AddIssues_single)

lemma checkLine_AddIssues:
  "checkLine patterns file report line = AddIssues report (changedLineIssues patterns file line)"
  unfolding checkLine_def changedLineIssues_def
  by (rule foldl_AddIssues) (rule checkPattern_AddIssues)

lemma securityCheckFile_AddIssues:
  "securityCheckFile e target patterns report file
     = AddIssues report (changedFileIssues e target patterns file)"
proof -
  have "foldl (checkLine patterns file) report ls
          = AddIssues report (concat (map (changedLineIssues patterns file) ls))" for ls
    by (rule foldl_AddIssues) (rule checkLine_AddIssues)
  then show ?thesis
    by (simp add: securityCheckFile_def changedFileIssues_def split: sum.splits)
qed

lemma RunSecurityChecksV2_AddIssues:
  "RunSecurityChecksV2 e report target
     = AddIssues report
         (concat (map (changedFileIssues e target GetSecurityPatterns) (ChangedFiles report)))"
  unfolding RunSecurityChecksV2_def
  by (rule foldl_AddIssues) (rule securityCheckFile_AddIssues)

lemma keywordCheck_AddIssues:
  "keywordCheck file contentStr report entry =
     AddIssues report (if Contains contentStr (fst entry)
                       then [\<lparr>Type = ''security'', Severity = ''high'', Message = snd entry,
                              File = file, Line = 0\<rparr>]
                       else [])"
  by (simp add: keywordCheck_def AddIssues_single)

lemma securityCheckWholeFile_AddIssues:
  "securityCheckWholeFile e report file = AddIssues report (keywordIssues e file)"
proof (cases "read_file e file")
  case None
  then show ?thesis by (simp add: securityCheckWholeFile_def keywordIssues_def)
next
  case (Some content)
  have "foldl (keywordCheck file (ToLower content)) report (range_order e file)
          = AddIssues report
              (concat (map (\<lambda>entry. if Contains (ToLower content) (fst entry)
                                then [\<lparr>Type = ''security'', Severity = ''high'', Message = snd entry,
                                       File = file, Line = 0\<rparr>]
                                else []) (range_order e file)))"
    by (rule foldl_AddIssues) (rule keywordCheck_AddIssues)
  with Some show ?thesis by (simp add: securityCheckWholeFile_def keywordIssues_def)
qed

lemma runSecurityChecks_AddIssues:
  "runSecurityChecks e report
     = AddIssues report (concat (map (keywordIssues e) (ChangedFiles report)))"
  unfolding runSecurityChecks_def
  by (rule foldl_AddIssues) (rule securityCheckWholeFile_AddIssues)

lemma checkQuality_AddIssues:
  "checkQuality rules e file report = AddIssues report (Issues (checkQuality rules e file (NewReport 0)))"
  by (simp add: checkQuality_def NewReport_def split: option.splits)

lemma checkJavaScriptQuality_AddIssues:
  "checkJavaScriptQuality e file report
     = AddIssues report (Issues (checkJavaScriptQuality e file (NewReport 0)))"
  by (simp add: checkJavaScriptQuality_def NewReport_def split: option.splits)

lemma qualityCheckFile_AddIssues:
  "qualityCheckFile e cks report file = AddIssues report (qualityIssues e cks file)"
  unfolding qualityIssues_def qualityCheckFile_def
  using checkQuality_AddIssues [of _ e "file" report]
        checkJavaScriptQuality_AddIssues [of e "file" report]
  by (simp add: NewReport_def)

lemma runQualityChecks_AddIssues:
  "runQualityChecks e cks report
     = AddIssues report (concat (map (qualityIssues e cks) (ChangedFiles report)))"
  unfolding runQualityChecks_def
  by (rule foldl_AddIssues) (rule qualityCheckFile_AddIssues)

lemma analyzeFullCodebase_files:
  "analyzeFullCodebase e a report
     = Inr (appendFiles report (concat (map (foundFiles e a) codeExtensions)))"
proof -
  have "foldl (\<lambda>r ext. appendFiles r (foundFiles e a ext)) r exts
          = appendFiles r (concat (map (foundFiles e a) exts))" for r exts
    by (induction exts arbitrary: r) (simp_all add: appendFiles_def)
  then show ?thesis by (simp add: analyzeFullCodebase_def)
qed

lemma GenerateReport_full:
  "GenerateReport e cks a target True =
     Inr (AddIssues (scopeReport e (concat (map (foundFiles e a) codeExtensions)))
            (concat (map (keywordIssues e) (concat (map (foundFiles e a) codeExtensions))) @
             concat (map (qualityIssues e cks) (concat (map (foundFiles e a) codeExtensions)))))"
  by (simp add: GenerateReport_def analyzeFullCodebase_files runQualityChecks_AddIssues
      runSecurityChecks_AddIssues AddIssues_append scopeReport_def appendFiles_def NewReport_def)

lemma GenerateReport_diff:
  "GenerateReport e cks a target False =
     (case changedFilesOutput e target of
        None \<Rightarrow> Inl (GitDiffAnalysisFailed (GetChangedFilesFailed CommandFailed))
      | Some output \<Rightarrow>
          Inr (AddIssues (scopeReport e (changedFiles a output))
                 (concat (map (changedFileIssues e target GetSecurityPatterns) (changedFiles a output)) @
                  concat (map (qualityIssues e cks) (changedFiles a output)))))"
  by (simp add: GenerateReport_def analyzeGitDiff_def runQualityChecks_AddIssues
      RunSecurityChecksV2_AddIssues AddIssues_append scopeReport_def appendFiles_def NewReport_def
      changedFiles_def split: option.splits)

lemma patternIssues_File: "i \<in> set (patternIssues file line sp) \<Longrightarrow> File i = file"
  by (auto simp: patternIssues_def split: if_splits)

lemma changedFileIssues_File:
  "i \<in> set (changedFileIssues e target patterns file) \<Longrightarrow> File i = file"
  by (auto simp: changedFileIssues_def changedLineIssues_def split: if_splits sum.splits
      dest: patternIssues_File)

lemma keywordIssues_File: "i \<in> set (keywordIssues e file) \<Longrightarrow> File i = file"
  by (auto simp: keywordIssues_def split: option.splits if_splits)

lemma issueIf_File: "i \<in> set (issueIf b (issueAt ty sev msg file n)) \<Longrightarrow> File i = file"
  by (auto simp: issueIf_def issueAt_def split: if_splits)

lemma jsLineIssues_File: "i \<in> set (jsLineIssues file n line) \<Longrightarrow> File i = file"
  unfolding jsLineIssues_def Let_def set_append Un_iff
  by (elim disjE) (erule issueIf_File)+

lemma jsFileIssues_File: "i \<in> set (jsFileIssues file contentStr) \<Longrightarrow> File i = file"
  unfolding jsFileIssues_def
  by (auto dest: jsLineIssues_File issueIf_File)

lemma checkQuality_File:
  "i \<in> set (Issues (checkQuality rules e file (NewReport 0))) \<Longrightarrow> File i = file"
  by (auto simp: checkQuality_def NewReport_def split: option.splits)

lemma checkJavaScriptQuality_File:
  "i \<in> set (Issues (checkJavaScriptQuality e file (NewReport 0))) \<Longrightarrow> File i = file"
  by (auto simp: checkJavaScriptQuality_def NewReport_def split: option.splits
      dest: jsFileIssues_File)

lemma Issues_NewReport: "Issues (NewReport n) = []"
  by (simp add: NewReport_def)

lemma qualityIssues_File: "i \<in> set (qualityIssues e cks file) \<Longrightarrow> File i = file"
  unfolding qualityIssues_def qualityCheckFile_def
  by (auto split: if_splits dest: checkQuality_File checkJavaScriptQuality_File
      simp: Issues_NewReport)

lemma qualityIssues_suffix:
  "i \<in> set (qualityIssues e cks file) \<Longrightarrow> \<exists>ext \<in> set codeExtensions. HasSuffix file ext"
  unfolding qualityIssues_def qualityCheckFile_def
  by (auto split: if_splits simp: Issues_NewReport codeExtensions_def)

lemma qualityIssues_unreadable: "read_file e file = None \<Longrightarrow> qualityIssues e cks file = []"
  by (simp add: qualityIssues_def qualityCheckFile_def checkQuality_def
      checkJavaScriptQuality_def NewReport_def)

lemma keywordIssues_unreadable: "read_file e file = None \<Longrightarrow> keywordIssues e file = []"
  by (simp add: keywordIssues_def)

lemma changedFileIssues_no_diff:
  "getChangedLines e target file = Inl err \<Longrightarrow> changedFileIssues e target patterns file = []"
  by (simp add: changedFileIssues_def)


section \<open>Properties of scope resolution and of the summary\<close>

lemma AddIssues_TotalFiles:
  "TotalFiles (Summary (AddIssues r is))
     = (if is = [] then TotalFiles (Summary r) else int (length (ChangedFiles r)))"
  by (cases "is" rule: rev_cases) (simp_all add: AddIssues_snoc AddIssue_TotalFiles)

lemma scopeReport_simps [simp]:
  "Issues (scopeReport e files) = []" "ChangedFiles (scopeReport e files) = files"
  "Summary (scopeReport e files) = zeroSummary" "Timestamp (scopeReport e files) = clock e"
  by (simp_all add: scopeReport_def appendFiles_def NewReport_def)

lemma GenerateReport_shape:
  assumes "GenerateReport e cks a target full = Inr r"
  shows "\<exists>files is. r = AddIssues (scopeReport e files) is"
proof (cases full)
  case True
  with assms show ?thesis by (auto simp: GenerateReport_full)
next
  case False
  with assms show ?thesis by (auto simp: GenerateReport_diff split: option.splits)
qed

text \<open>
  C10. Adding files to the scope leaves the summary as it is; \<open>total_files\<close> is
  computed in \<open>AddIssue\<close> only. In the report of a run, \<open>total_files\<close> is 0 when
  there is no Issue, however many files were analyzed, and the number of files in scope
  otherwise.
\<close>

theorem total_files_only_with_issues:
  "Summary (appendFiles report files) = Summary report \<and>
   (GenerateReport e cks a target full = Inr r \<longrightarrow>
      TotalFiles (Summary r) = (if Issues r = [] then 0 else int (length (ChangedFiles r))))"
proof (intro conjI impI)
  show "Summary (appendFiles report files) = Summary report"
    by (simp add: appendFiles_def)
  assume "GenerateReport e cks a target full = Inr r"
  then obtain fs "is" where "r = AddIssues (scopeReport e fs) is"
    using GenerateReport_shape by blast
  then show "TotalFiles (Summary r) = (if Issues r = [] then 0 else int (length (ChangedFiles r)))"
    by (simp add: AddIssues_TotalFiles zeroSummary_def)
qed

lemma clean_run:
  "GenerateReport clean_tree_env no_rules plain_analyzer ''main'' True
     = Inr \<lparr>Timestamp = 0, ChangedFiles = [''./a.js'', ''./lib/b.js''], Issues = [],
            Summary = zeroSummary\<rparr>"
  by code_simp

theorem total_files_only_with_issues_witness:
  "GenerateReport clean_tree_env no_rules plain_analyzer ''main'' True
     = Inr \<lparr>Timestamp = 0, ChangedFiles = [''./a.js'', ''./lib/b.js''], Issues = [],
            Summary = zeroSummary\<rparr> \<and>
   TotalFiles zeroSummary = 0"
  using total_files_only_with_issues
          [of "NewReport 0" "[]" clean_tree_env no_rules plain_analyzer "''main''" True
              "\<lparr>Timestamp = 0, ChangedFiles = [''./a.js'', ''./lib/b.js''], Issues = [],
                Summary = zeroSummary\<rparr>"]
        clean_run
  by simp

text \<open>
  C9. The file list of a full scan is a function of the outputs of the \<open>find\<close>
  commands and of the ignore patterns: the files found for each extension, in the order of
  the extensions and, within one extension, in the order of the output. Two resolutions
  for which these agree give the same list in the same order, whatever else differs.
\<close>

theorem full_scan_scope_determined:
  assumes "\<forall>ext \<in> set codeExtensions. find_name e1 (''*'' @ ext) = find_name e2 (''*'' @ ext)"
    and "ignorePatterns a1 = ignorePatterns a2"
  shows "\<exists>r1 r2. analyzeFullCodebase e1 a1 (NewReport t1) = Inr r1 \<and>
                 analyzeFullCodebase e2 a2 (NewReport t2) = Inr r2 \<and>
                 ChangedFiles r1 = ChangedFiles r2 \<and>
                 ChangedFiles r1 = concat (map (foundFiles e1 a1) codeExtensions)"
proof -
  have same: "shouldIgnoreFile a1 = shouldIgnoreFile a2"
    using assms(2) by (simp add: fun_eq_iff shouldIgnoreFile_def)
  have "foundFiles e1 a1 ext = foundFiles e2 a2 ext" if "ext \<in> set codeExtensions" for ext
    using assms(1) that unfolding foundFiles_def same by simp
  then have "map (foundFiles e1 a1) codeExtensions = map (foundFiles e2 a2) codeExtensions"
    by simp
  then have "concat (map (foundFiles e1 a1) codeExtensions)
               = concat (map (foundFiles e2 a2) codeExtensions)"
    by (rule arg_cong)
  then show ?thesis
    by (simp add: analyzeFullCodebase_files appendFiles_def NewReport_def)
qed

lemma foundFiles_clean:
  "concat (map (foundFiles clean_tree_env plain_analyzer) codeExtensions) = [''./a.js'', ''./lib/b.js'']"
  by code_simp

theorem full_scan_scope_determined_witness:
  "list_all (\<lambda>ext. find_name clean_tree_env (''*'' @ ext) = find_name empty_diff_env (''*'' @ ext))
     codeExtensions \<and>
   (\<exists>r1 r2. analyzeFullCodebase clean_tree_env plain_analyzer (NewReport 0) = Inr r1 \<and>
            analyzeFullCodebase empty_diff_env plain_analyzer (NewReport 1) = Inr r2 \<and>
            ChangedFiles r1 = ChangedFiles r2 \<and>
            ChangedFiles r1 = [''./a.js'', ''./lib/b.js''])"
proof -
  have h: "\<forall>ext \<in> set codeExtensions.
      find_name clean_tree_env (''*'' @ ext) = find_name empty_diff_env (''*'' @ ext)"
    by (simp add: empty_diff_env_def)
  from full_scan_scope_determined [OF h refl, of plain_analyzer 0 1] h foundFiles_clean
  show ?thesis by (simp add: list_all_iff)
qed

text \<open>
  C5, as stated, fails. When both \<open>git diff --name-only\<close> commands fail, the run in
  changed-file mode returns the error \<open>git diff analysis failed\<close>; when the diff is
  empty, it returns a report with no file. In neither case are the files scanned that a
  full scan of the same tree finds.
\<close>

theorem no_fallback_to_full_scan:
  "GenerateReport clean_tree_env no_rules plain_analyzer ''main'' False
     = Inl (GitDiffAnalysisFailed (GetChangedFilesFailed CommandFailed)) \<and>
   GenerateReport empty_diff_env no_rules plain_analyzer ''main'' False
     = Inr \<lparr>Timestamp = 0, ChangedFiles = [], Issues = [], Summary = zeroSummary\<rparr> \<and>
   GenerateReport empty_diff_env no_rules plain_analyzer ''main'' True
     = Inr \<lparr>Timestamp = 0, ChangedFiles = [''./a.js'', ''./lib/b.js''], Issues = [],
            Summary = zeroSummary\<rparr>"
  by code_simp

lemma changedFiles_empty: "TrimSpace output = [] \<Longrightarrow> changedFiles a output = []"
  by (simp add: changedFiles_def)

text \<open>
  C5, amended: a run in changed-file mode fails, with the error
  \<open>git diff analysis failed: failed to get changed files\<close>, exactly when the diff
  against \<open>origin/<target>\<close> and the diff against the local \<open><target>\<close> both fail;
  a diff that is empty after trimming gives the new, empty report. There is no fallback to a
  full scan.
\<close>

theorem diff_failure_is_an_error:
  "(GenerateReport e cks a target False
      = Inl (GitDiffAnalysisFailed (GetChangedFilesFailed CommandFailed))
    \<longleftrightarrow> git_diff_names e (''origin/'' @ target @ ''..HEAD'') = None \<and>
        git_diff_names e (target @ ''..HEAD'') = None) \<and>
   (changedFilesOutput e target = Some output \<and> TrimSpace output = [] \<longrightarrow>
      GenerateReport e cks a target False = Inr (NewReport (clock e)))"
  by (auto simp: GenerateReport_diff changedFilesOutput_def changedFiles_empty scopeReport_def
      appendFiles_def split: option.splits)

theorem diff_failure_is_an_error_witness:
  "git_diff_names clean_tree_env (''origin/'' @ ''main'' @ ''..HEAD'') = None \<and>
   git_diff_names clean_tree_env (''main'' @ ''..HEAD'') = None \<and>
   GenerateReport clean_tree_env no_rules plain_analyzer ''main'' False
     = Inl (GitDiffAnalysisFailed (GetChangedFilesFailed CommandFailed)) \<and>
   changedFilesOutput empty_diff_env ''main'' = Some [] \<and> TrimSpace [] = [] \<and>
   GenerateReport empty_diff_env no_rules plain_analyzer ''main'' False = Inr (NewReport 0)"
  using diff_failure_is_an_error [of clean_tree_env no_rules plain_analyzer "''main''" "[]"]
        diff_failure_is_an_error [of empty_diff_env no_rules plain_analyzer "''main''" "[]"]
  by (simp add: clean_tree_env_def empty_diff_env_def changedFilesOutput_def TrimSpace_def)


section \<open>Lock files and changed lines\<close>

lemma lock_run_diff:
  "GenerateReport lock_env no_rules plain_analyzer ''main'' False
     = Inr \<lparr>Timestamp = 0, ChangedFiles = [''package-lock.json'', ''login.js''],
            Issues = [password_issue ''login.js'', strict_issue ''login.js''],
            Summary = \<lparr>TotalFiles = 2, TotalIssues = 2, HighSeverity = 1, MediumSeverity = 0,
                        LowSeverity = 1\<rparr>\<rparr>"
  by code_simp

lemma lock_run_full:
  "GenerateReport lock_env no_rules plain_analyzer ''main'' True
     = Inr \<lparr>Timestamp = 0, ChangedFiles = [''./login.js''],
            Issues = [keyword_issue ''./login.js'', secret_issue ''./login.js'',
                      strict_issue ''./login.js''],
            Summary = \<lparr>TotalFiles = 1, TotalIssues = 3, HighSeverity = 2, MediumSeverity = 0,
                        LowSeverity = 1\<rparr>\<rparr>"
  by code_simp

lemma lock_changed_lines:
  "getChangedLines lock_env ''main'' ''package-lock.json''
     = Inr [\<lparr>LineNum = 1, Content = password_line\<rparr>]"
  by code_simp

lemma lock_find_contract: "find_contract lock_env"
  by (simp add: find_contract_def lock_env_def codeExtensions_def TrimSpace_def isSpace_def
      HasSuffix_def suffix_to_prefix)

lemma Base_suffix:
  assumes "suffix ext f" "ext \<noteq> []" "CHR ''/'' \<notin> set ext"
  shows "suffix ext (Base f)"
proof -
  from assms(1) obtain pre where f: "f = pre @ ext" by (auto simp: suffix_def)
  from assms(2) obtain x xs where rx: "rev ext = x # xs" by (cases "rev ext") auto
  then have "x \<in> set ext" by (metis list.set_intros(1) set_rev)
  with assms(3) have x: "x \<noteq> CHR ''/''" by auto
  have dw: "dropWhile (\<lambda>c. c = CHR ''/'') (rev f) = rev f"
    using f rx x by simp
  have tw: "takeWhile (\<lambda>c. c \<noteq> CHR ''/'') (rev ext @ rev pre)
                   = rev ext @ takeWhile (\<lambda>c. c \<noteq> CHR ''/'') (rev pre)"
    using assms(3) by (intro takeWhile_append2) auto
  have "Base f = rev (takeWhile (\<lambda>c. c \<noteq> CHR ''/'') (rev pre)) @ ext"
    using f assms(2) dw tw by (simp add: Base_def Let_def)
  then show ?thesis by (simp add: suffix_def)
qed

lemma lock_names_have_no_code_suffix:
  "\<forall>ext \<in> set codeExtensions. \<forall>l \<in> set securityIgnoreFiles. \<not> suffix ext l"
  by (simp add: codeExtensions_def securityIgnoreFiles_def suffix_to_prefix)

lemma code_extension_shape:
  "ext \<in> set codeExtensions \<Longrightarrow> ext \<noteq> [] \<and> CHR ''/'' \<notin> set ext"
  by (auto simp: codeExtensions_def)

lemma code_file_not_lock:
  assumes "ext \<in> set codeExtensions" "HasSuffix f ext"
  shows "Base f \<notin> set securityIgnoreFiles"
proof
  assume "Base f \<in> set securityIgnoreFiles"
  moreover have "suffix ext (Base f)"
    using assms code_extension_shape [OF assms(1)] by (simp add: HasSuffix_def Base_suffix)
  ultimately show False using lock_names_have_no_code_suffix assms(1) by blast
qed

lemma lock_file_skipped: "Base f \<in> set securityIgnoreFiles \<Longrightarrow> shouldSkipFileForSecurity f"
  by (simp add: shouldSkipFileForSecurity_def Let_def)

lemma foundFiles_suffix:
  assumes "find_contract e" "ext \<in> set codeExtensions" "f \<in> set (foundFiles e a ext)"
  shows "HasSuffix f ext"
proof -
  from assms(3) obtain out where out: "find_name e (''*'' @ ext) = Some out"
    and f: "f \<in> set (Split (TrimSpace out) NL)" "f \<noteq> []"
    by (cases "find_name e (''*'' @ ext)") (auto simp: foundFiles_def)
  with assms(1,2) show ?thesis unfolding find_contract_def by blast
qed

lemma full_scan_scope:
  assumes "GenerateReport e cks a target True = Inr r"
  shows "ChangedFiles r = concat (map (foundFiles e a) codeExtensions)"
  using assms by (auto simp: GenerateReport_full)

lemma full_scan_issue_in_scope:
  assumes "GenerateReport e cks a target True = Inr r" and "i \<in> set (Issues r)"
  shows "File i \<in> set (ChangedFiles r)"
proof -
  let ?files = "concat (map (foundFiles e a) codeExtensions)"
  have r: "r = AddIssues (scopeReport e ?files)
                 (concat (map (keywordIssues e) ?files) @ concat (map (qualityIssues e cks) ?files))"
    using assms(1) by (simp add: GenerateReport_full)
  have scope: "ChangedFiles r = ?files" by (simp add: r)
  have "i \<in> set (concat (map (keywordIssues e) ?files)) \<or>
        i \<in> set (concat (map (qualityIssues e cks) ?files))"
    using assms(2) by (simp add: r)
  then obtain g where "g \<in> set ?files" "i \<in> set (keywordIssues e g) \<or> i \<in> set (qualityIssues e cks g)"
    by auto
  then show ?thesis
    using keywordIssues_File qualityIssues_File scope by auto
qed

text \<open>
  C4, as stated, fails for a full scan: the whole-file security check has no exemption,
  and a lock file that is in the scope is flagged. The scope is made of the lines that
  \<open>find\<close> prints; for a script whose name holds a newline after
  \<open>package-lock.json\<close> one of these lines is \<open>./package-lock.json\<close>, and
  the report holds a finding for the lock file of the tree. The check itself, given a
  scope with \<open>go.sum\<close>, reports it.
\<close>

theorem lock_file_flagged_in_full_scan:
  "GenerateReport newline_name_env no_rules plain_analyzer ''main'' True
     = Inr \<lparr>Timestamp = 0, ChangedFiles = [''./package-lock.json'', ''x.js''],
            Issues = [keyword_issue ''./package-lock.json''],
            Summary = \<lparr>TotalFiles = 2, TotalIssues = 1, HighSeverity = 1, MediumSeverity = 0,
                        LowSeverity = 0\<rparr>\<rparr> \<and>
   Base ''./package-lock.json'' \<in> set securityIgnoreFiles \<and>
   Issues (runSecurityChecks lock_env lock_scope)
     = [keyword_issue ''go.sum'', secret_issue ''go.sum''] \<and>
   Base ''go.sum'' \<in> set securityIgnoreFiles"
  by code_simp

text \<open>
  C4, amended. In changed-file mode a file whose base name is a lock file is passed over
  by the changed-line security check before any of its lines is looked at, whatever it
  holds, and no Issue of the report names a lock file. A full scan has no exemption: every
  Issue of its report names a file of the scope, so that no lock file is flagged as long
  as the scope holds no lock-file name, and the scope holds none when \<open>find\<close>
  prints only names that end in the extension it was asked for (\<open>find_contract\<close>).
\<close>

theorem lock_files_never_flagged:
  "(Base f \<in> set securityIgnoreFiles \<longrightarrow>
      securityCheckFile e target patterns report f = report) \<and>
   (GenerateReport e cks a target False = Inr r \<longrightarrow>
      (\<forall>i \<in> set (Issues r). Base (File i) \<notin> set securityIgnoreFiles)) \<and>
   (GenerateReport e cks a target True = Inr r \<and>
    (\<forall>g \<in> set (ChangedFiles r). Base g \<notin> set securityIgnoreFiles) \<longrightarrow>
      (\<forall>i \<in> set (Issues r). Base (File i) \<notin> set securityIgnoreFiles)) \<and>
   (GenerateReport e cks a target True = Inr r \<and> find_contract e \<longrightarrow>
      (\<forall>g \<in> set (ChangedFiles r). Base g \<notin> set securityIgnoreFiles))"
proof (intro conjI impI ballI)
  assume "Base f \<in> set securityIgnoreFiles"
  then show "securityCheckFile e target patterns report f = report"
    by (simp add: securityCheckFile_def lock_file_skipped)
next
  fix i
  assume h: "GenerateReport e cks a target False = Inr r" and i: "i \<in> set (Issues r)"
  then consider
      g where "i \<in> set (changedFileIssues e target GetSecurityPatterns g)"
    | g where "i \<in> set (qualityIssues e cks g)"
    by (auto simp: GenerateReport_diff split: option.splits)
  then show "Base (File i) \<notin> set securityIgnoreFiles"
  proof cases
    case 1
    then have "\<not> shouldSkipFileForSecurity g"
      by (auto simp: changedFileIssues_def split: if_splits)
    with changedFileIssues_File [OF 1] lock_file_skipped show ?thesis by auto
  next
    case 2
    then show ?thesis
      using qualityIssues_File [OF 2] qualityIssues_suffix [OF 2] code_file_not_lock by auto
  qed
next
  fix i
  assume h: "GenerateReport e cks a target True = Inr r \<and>
    (\<forall>g \<in> set (ChangedFiles r). Base g \<notin> set securityIgnoreFiles)"
    and i: "i \<in> set (Issues r)"
  then show "Base (File i) \<notin> set securityIgnoreFiles"
    using full_scan_issue_in_scope [of e cks a target r i] by blast
next
  fix g
  assume h: "GenerateReport e cks a target True = Inr r \<and> find_contract e"
    and g: "g \<in> set (ChangedFiles r)"
  then obtain ext where "ext \<in> set codeExtensions" "g \<in> set (foundFiles e a ext)"
    using full_scan_scope [of e cks a target r] by auto
  then show "Base g \<notin> set securityIgnoreFiles"
    using h foundFiles_suffix code_file_not_lock by blast
qed

theorem lock_files_never_flagged_witness:
  "Base ''package-lock.json'' \<in> set securityIgnoreFiles \<and>
   getChangedLines lock_env ''main'' ''package-lock.json''
     = Inr [\<lparr>LineNum = 1, Content = password_line\<rparr>] \<and>
   securityCheckFile lock_env ''main'' GetSecurityPatterns (NewReport 0) ''package-lock.json''
     = NewReport 0 \<and>
   GenerateReport lock_env no_rules plain_analyzer ''main'' False
     = Inr \<lparr>Timestamp = 0, ChangedFiles = [''package-lock.json'', ''login.js''],
            Issues = [password_issue ''login.js'', strict_issue ''login.js''],
            Summary = \<lparr>TotalFiles = 2, TotalIssues = 2, HighSeverity = 1, MediumSeverity = 0,
                        LowSeverity = 1\<rparr>\<rparr> \<and>
   Base (File (password_issue ''login.js'')) \<notin> set securityIgnoreFiles \<and>
   find_contract lock_env \<and>
   GenerateReport lock_env no_rules plain_analyzer ''main'' True
     = Inr \<lparr>Timestamp = 0, ChangedFiles = [''./login.js''],
            Issues = [keyword_issue ''./login.js'', secret_issue ''./login.js'',
                      strict_issue ''./login.js''],
            Summary = \<lparr>TotalFiles = 1, TotalIssues = 3, HighSeverity = 2, MediumSeverity = 0,
                        LowSeverity = 1\<rparr>\<rparr> \<and>
   Base ''./login.js'' \<notin> set securityIgnoreFiles \<and>
   Base (File (keyword_issue ''./login.js'')) \<notin> set securityIgnoreFiles"
proof -
  have b: "Base ''package-lock.json'' \<in> set securityIgnoreFiles"
    by (simp add: Base_def securityIgnoreFiles_def)
  show ?thesis
    using lock_files_never_flagged
            [where f = "''package-lock.json''" and e = lock_env and target = "''main''"
               and patterns = GetSecurityPatterns and report = "NewReport 0"
               and cks = no_rules and a = plain_analyzer
               and r = "\<lparr>Timestamp = 0, ChangedFiles = [''package-lock.json'', ''login.js''],
                         Issues = [password_issue ''login.js'', strict_issue ''login.js''],
                         Summary = \<lparr>TotalFiles = 2, TotalIssues = 2, HighSeverity = 1,
                                     MediumSeverity = 0, LowSeverity = 1\<rparr>\<rparr>"]
          lock_files_never_flagged
            [where f = "''package-lock.json''" and e = lock_env and target = "''main''"
               and patterns = GetSecurityPatterns and report = "NewReport 0"
               and cks = no_rules and a = plain_analyzer
               and r = "\<lparr>Timestamp = 0, ChangedFiles = [''./login.js''],
                         Issues = [keyword_issue ''./login.js'', secret_issue ''./login.js'',
                                   strict_issue ''./login.js''],
                         Summary = \<lparr>TotalFiles = 1, TotalIssues = 3, HighSeverity = 2,
                                     MediumSeverity = 0, LowSeverity = 1\<rparr>\<rparr>"]
          b lock_changed_lines lock_find_contract lock_run_diff lock_run_full
    by simp
qed

text \<open>
  C3. The changed-line security pass appends, for each file of the scope in order, for
  each changed line of the file in order, one Issue for each rule of
  \<open>GetSecurityPatterns\<close>, in order, whose pattern matches the line and none of whose
  exclusions does, and nothing else. The password rule is one of the rules: it fires on
  \<open>password = "supersecret1"\<close>, and on no line that the exclusion
  \<^verbatim>\<open>type\s*[:=]\s*["']password["']\<close> matches. This is the pass of changed-file
  mode; the keyword check of a full scan has no exclusions.
\<close>

theorem changed_line_pass_fires_matching_rules:
  "Issues (RunSecurityChecksV2 e report target)
     = Issues report @
       concat (map (\<lambda>file.
                 concat (map (\<lambda>line. map (ruleIssue file line)
                                          (filter (\<lambda>sp. ruleFires sp (Content line))
                                                  GetSecurityPatterns))
                             (linesChecked e target file)))
               (ChangedFiles report)) \<and>
   hardcoded_password \<in> set GetSecurityPatterns \<and>
   ruleFires hardcoded_password password_line \<and>
   (MatchString exclude_input_type content \<longrightarrow> \<not> ruleFires hardcoded_password content) \<and>
   (f \<in> set (ChangedFiles report) \<and> l \<in> set (linesChecked e target f) \<and>
    Content l = password_line \<longrightarrow>
      ruleIssue f l hardcoded_password \<in> set (Issues (RunSecurityChecksV2 e report target)))"
proof -
  have run: "Issues (RunSecurityChecksV2 e report target)
     = Issues report @
       concat (map (\<lambda>file.
                 concat (map (\<lambda>line. map (ruleIssue file line)
                                          (filter (\<lambda>sp. ruleFires sp (Content line))
                                                  GetSecurityPatterns))
                             (linesChecked e target file)))
               (ChangedFiles report))"
    by (simp add: RunSecurityChecksV2_AddIssues changedFileIssues_fires)
  have fires: "ruleIssue f l hardcoded_password \<in> set (Issues (RunSecurityChecksV2 e report target))"
    if "f \<in> set (ChangedFiles report)" "l \<in> set (linesChecked e target f)"
       "Content l = password_line"
  proof -
    have "ruleIssue f l hardcoded_password
            \<in> set (map (ruleIssue f l) (filter (\<lambda>sp. ruleFires sp (Content l)) GetSecurityPatterns))"
      using that(3) hardcoded_password_listed password_line_fires by simp
    with that(1,2) have "\<exists>file \<in> set (ChangedFiles report). \<exists>line \<in> set (linesChecked e target file).
        ruleIssue f l hardcoded_password
          \<in> set (map (ruleIssue file line)
                     (filter (\<lambda>sp. ruleFires sp (Content line)) GetSecurityPatterns))"
      by blast
    then show ?thesis unfolding run by auto
  qed
  show ?thesis
    using run fires hardcoded_password_listed password_line_fires input_type_never_fires
    by blast
qed

lemma login_security_run:
  "Issues (RunSecurityChecksV2 lock_env login_scope ''main'') = [password_issue ''login.js'']"
  by code_simp

lemma login_lines_checked:
  "linesChecked lock_env ''main'' ''login.js'' = [\<lparr>LineNum = 1, Content = password_line\<rparr>] \<and>
   linesChecked input_type_env ''main'' ''login.js''
     = [\<lparr>LineNum = 1, Content = input_type_line\<rparr>]"
  by code_simp

lemma input_type_security_run:
  "Issues (RunSecurityChecksV2 input_type_env login_scope ''main'') = []"
  by code_simp

theorem changed_line_pass_fires_matching_rules_witness:
  "hardcoded_password \<in> set GetSecurityPatterns \<and>
   ChangedFiles login_scope = [''login.js''] \<and>
   linesChecked lock_env ''main'' ''login.js'' = [\<lparr>LineNum = 1, Content = password_line\<rparr>] \<and>
   ruleFires hardcoded_password password_line \<and>
   ruleIssue ''login.js'' \<lparr>LineNum = 1, Content = password_line\<rparr> hardcoded_password
     = password_issue ''login.js'' \<and>
   Issues (RunSecurityChecksV2 lock_env login_scope ''main'') = [password_issue ''login.js''] \<and>
   linesChecked input_type_env ''main'' ''login.js''
     = [\<lparr>LineNum = 1, Content = input_type_line\<rparr>] \<and>
   MatchString (Pattern hardcoded_password) input_type_line \<and>
   MatchString exclude_input_type input_type_line \<and>
   \<not> ruleFires hardcoded_password input_type_line \<and>
   Issues (RunSecurityChecksV2 input_type_env login_scope ''main'') = []"
proof -
  have issue: "ruleIssue ''login.js'' \<lparr>LineNum = 1, Content = password_line\<rparr> hardcoded_password
     = password_issue ''login.js''"
    by (simp add: ruleIssue_def password_issue_def hardcoded_password_def)
  show ?thesis
    using changed_line_pass_fires_matching_rules
            [where e = lock_env and report = login_scope and target = "''main''"
               and content = input_type_line and f = "''login.js''"
               and l = "\<lparr>LineNum = 1, Content = password_line\<rparr>"]
          issue login_lines_checked login_security_run input_type_security_run
          input_type_line_matches input_type_line_excluded
    by (simp add: login_scope_def)
qed

text \<open>
  C6, as stated, fails: in changed-file mode the quality checks read the whole file. Here
  the diff adds line 2 only, and the report holds the \<open>eval\<close> finding of line 1.
\<close>

theorem old_line_reported_in_changed_file:
  "getChangedLines preexisting_env ''main'' ''app.js''
     = Inr [\<lparr>LineNum = 2, Content = ''export const x = 1;''\<rparr>] \<and>
   GenerateReport preexisting_env no_rules plain_analyzer ''main'' False
     = Inr \<lparr>Timestamp = 0, ChangedFiles = [''app.js''], Issues = [eval_issue ''app.js''],
            Summary = \<lparr>TotalFiles = 1, TotalIssues = 1, HighSeverity = 1, MediumSeverity = 0,
                        LowSeverity = 0\<rparr>\<rparr>"
  by code_simp

text \<open>
  C6, amended: in changed-file mode the security rules of \<open>RunSecurityChecksV2\<close> are
  evaluated on changed lines only: every Issue it appends names a file in scope and a line
  that the extractor returned for that file, on which a rule matches and is not excluded.
\<close>

theorem changed_line_rules_on_changed_lines_only:
  assumes "i \<in> set (Issues (RunSecurityChecksV2 e report target))"
    and "i \<notin> set (Issues report)"
  shows "\<exists>ls l sp. File i \<in> set (ChangedFiles report) \<and>
           getChangedLines e target (File i) = Inr ls \<and> l \<in> set ls \<and>
           sp \<in> set GetSecurityPatterns \<and> Line i = LineNum l \<and>
           MatchString (Pattern sp) (Content l) \<and> \<not> excluded (Exclusions sp) (Content l)"
proof -
  from assms obtain g where g: "g \<in> set (ChangedFiles report)"
    and i: "i \<in> set (changedFileIssues e target GetSecurityPatterns g)"
    by (auto simp: RunSecurityChecksV2_AddIssues)
  have f: "File i = g" using changedFileIssues_File [OF i] .
  from i obtain ls where ls: "getChangedLines e target g = Inr ls"
    and "i \<in> set (concat (map (changedLineIssues GetSecurityPatterns g) ls))"
    by (cases "getChangedLines e target g") (auto simp: changedFileIssues_def split: if_splits)
  then obtain l sp where l: "l \<in> set ls" and sp: "sp \<in> set GetSecurityPatterns"
    and p: "i \<in> set (patternIssues g l sp)"
    by (auto simp: changedLineIssues_def)
  from p have "Line i = LineNum l \<and> MatchString (Pattern sp) (Content l) \<and>
               \<not> excluded (Exclusions sp) (Content l)"
    by (auto simp: patternIssues_def split: if_splits)
  with g f ls l sp show ?thesis by blast
qed

theorem changed_line_rules_on_changed_lines_only_witness:
  "password_issue ''login.js'' \<in> set (Issues (RunSecurityChecksV2 lock_env login_scope ''main'')) \<and>
   password_issue ''login.js'' \<notin> set (Issues login_scope) \<and>
   (\<exists>ls l sp. File (password_issue ''login.js'') \<in> set (ChangedFiles login_scope) \<and>
      getChangedLines lock_env ''main'' (File (password_issue ''login.js'')) = Inr ls \<and>
      l \<in> set ls \<and> sp \<in> set GetSecurityPatterns \<and>
      Line (password_issue ''login.js'') = LineNum l \<and>
      MatchString (Pattern sp) (Content l) \<and> \<not> excluded (Exclusions sp) (Content l))"
proof -
  have a: "password_issue ''login.js'' \<in> set (Issues (RunSecurityChecksV2 lock_env login_scope ''main''))"
    by (simp add: login_security_run)
  have b: "password_issue ''login.js'' \<notin> set (Issues login_scope)"
    by (simp add: login_scope_def)
  from changed_line_rules_on_changed_lines_only [OF a b] a b show ?thesis by blast
qed


section \<open>Files that cannot be read or compared\<close>

text \<open>
  C8, as stated, fails: the checks fail apart. With no diff for a readable file, the
  quality check still records its findings; with a diff for an unreadable file, the
  changed-line security check still records its finding.
\<close>

theorem issues_recorded_despite_failure:
  "getChangedLines broken_diff_env ''main'' ''app.js'' = Inl CommandFailed \<and>
   GenerateReport broken_diff_env no_rules plain_analyzer ''main'' False
     = Inr \<lparr>Timestamp = 0, ChangedFiles = [''app.js''],
            Issues = [eval_issue ''app.js'', strict_issue ''app.js''],
            Summary = \<lparr>TotalFiles = 1, TotalIssues = 2, HighSeverity = 1, MediumSeverity = 0,
                        LowSeverity = 1\<rparr>\<rparr> \<and>
   read_file unreadable_env ''login.js'' = None \<and>
   GenerateReport unreadable_env no_rules plain_analyzer ''main'' False
     = Inr \<lparr>Timestamp = 0, ChangedFiles = [''login.js''],
            Issues = [password_issue ''login.js''],
            Summary = \<lparr>TotalFiles = 1, TotalIssues = 1, HighSeverity = 1, MediumSeverity = 0,
                        LowSeverity = 0\<rparr>\<rparr>"
  by code_simp

text \<open>
  C8, amended: a check passes over a file whose input it cannot get and goes on with the
  other files: the changed-line security check when the diff of the file fails, the
  whole-file security check and the quality checks when the file cannot be read; the
  Issues of the other files are those of a scope without the file. A full scan never
  fails, and a run in changed-file mode does not fail once the list of changed files is
  had. When every check that runs on a file lacks its input, no Issue of the report names
  the file.
\<close>

theorem failing_file_is_passed_over:
  "(getChangedLines e target f = Inl err \<longrightarrow>
      securityCheckFile e target patterns report f = report \<and>
      Issues (RunSecurityChecksV2 e (report\<lparr>ChangedFiles := fs1 @ f # fs2\<rparr>) target)
        = Issues (RunSecurityChecksV2 e (report\<lparr>ChangedFiles := fs1 @ fs2\<rparr>) target)) \<and>
   (read_file e f = None \<longrightarrow>
      securityCheckWholeFile e report f = report \<and>
      qualityCheckFile e cks report f = report \<and>
      Issues (runSecurityChecks e (report\<lparr>ChangedFiles := fs1 @ f # fs2\<rparr>))
        = Issues (runSecurityChecks e (report\<lparr>ChangedFiles := fs1 @ fs2\<rparr>)) \<and>
      Issues (runQualityChecks e cks (report\<lparr>ChangedFiles := fs1 @ f # fs2\<rparr>))
        = Issues (runQualityChecks e cks (report\<lparr>ChangedFiles := fs1 @ fs2\<rparr>))) \<and>
   (\<exists>r. GenerateReport e cks a target True = Inr r) \<and>
   (changedFilesOutput e target \<noteq> None \<longrightarrow> (\<exists>r. GenerateReport e cks a target False = Inr r)) \<and>
   ((full \<or> getChangedLines e target f = Inl err) \<and> read_file e f = None \<and>
    GenerateReport e cks a target full = Inr r \<longrightarrow> (\<forall>i \<in> set (Issues r). File i \<noteq> f))"
proof (intro conjI impI ballI)
  assume d: "getChangedLines e target f = Inl err"
  show "securityCheckFile e target patterns report f = report"
    using d by (simp add: securityCheckFile_def)
  show "Issues (RunSecurityChecksV2 e (report\<lparr>ChangedFiles := fs1 @ f # fs2\<rparr>) target)
        = Issues (RunSecurityChecksV2 e (report\<lparr>ChangedFiles := fs1 @ fs2\<rparr>) target)"
    using changedFileIssues_no_diff [OF d, of GetSecurityPatterns]
    by (simp add: RunSecurityChecksV2_AddIssues)
next
  assume u: "read_file e f = None"
  show "securityCheckWholeFile e report f = report"
    using u by (simp add: securityCheckWholeFile_def)
  show "qualityCheckFile e cks report f = report"
    using qualityIssues_unreadable [OF u, of cks] by (simp add: qualityCheckFile_AddIssues)
  show "Issues (runSecurityChecks e (report\<lparr>ChangedFiles := fs1 @ f # fs2\<rparr>))
        = Issues (runSecurityChecks e (report\<lparr>ChangedFiles := fs1 @ fs2\<rparr>))"
    using keywordIssues_unreadable [OF u] by (simp add: runSecurityChecks_AddIssues)
  show "Issues (runQualityChecks e cks (report\<lparr>ChangedFiles := fs1 @ f # fs2\<rparr>))
        = Issues (runQualityChecks e cks (report\<lparr>ChangedFiles := fs1 @ fs2\<rparr>))"
    using qualityIssues_unreadable [OF u, of cks] by (simp add: runQualityChecks_AddIssues)
next
  show "\<exists>r. GenerateReport e cks a target True = Inr r"
    by (simp add: GenerateReport_full)
next
  assume "changedFilesOutput e target \<noteq> None"
  then show "\<exists>r. GenerateReport e cks a target False = Inr r"
    by (auto simp: GenerateReport_diff)
next
  fix i
  assume h: "(full \<or> getChangedLines e target f = Inl err) \<and> read_file e f = None \<and>
             GenerateReport e cks a target full = Inr r"
    and i: "i \<in> set (Issues r)"
  then have u: "read_file e f = None" by simp
  show "File i \<noteq> f"
  proof
    assume fi: "File i = f"
    show False
    proof (cases full)
      case True
      with h i consider g where "i \<in> set (keywordIssues e g)"
        | g where "i \<in> set (qualityIssues e cks g)"
        by (auto simp: GenerateReport_full)
      then show False
      proof cases
        case 1
        with keywordIssues_File [OF 1] fi keywordIssues_unreadable [OF u] show False by auto
      next
        case 2
        with qualityIssues_File [OF 2] fi qualityIssues_unreadable [OF u, of cks] show False
          by auto
      qed
    next
      case False
      with h have d: "getChangedLines e target f = Inl err" by simp
      from False h i consider g where "i \<in> set (changedFileIssues e target GetSecurityPatterns g)"
        | g where "i \<in> set (qualityIssues e cks g)"
        by (auto simp: GenerateReport_diff split: option.splits)
      then show False
      proof cases
        case 1
        with changedFileIssues_File [OF 1] fi changedFileIssues_no_diff [OF d, of GetSecurityPatterns]
        show False by auto
      next
        case 2
        with qualityIssues_File [OF 2] fi qualityIssues_unreadable [OF u, of cks] show False
          by auto
      qed
    qed
  qed
qed

lemma partial_run:
  "GenerateReport partial_env no_rules plain_analyzer ''main'' False
     = Inr \<lparr>Timestamp = 0, ChangedFiles = [''app.js'', ''login.js''],
            Issues = [password_issue ''login.js'', strict_issue ''login.js''],
            Summary = \<lparr>TotalFiles = 2, TotalIssues = 2, HighSeverity = 1, MediumSeverity = 0,
                        LowSeverity = 1\<rparr>\<rparr>"
  by code_simp

lemma partial_failures:
  "getChangedLines partial_env ''main'' ''app.js'' = Inl CommandFailed"
  "read_file partial_env ''app.js'' = None"
  "changedFilesOutput partial_env ''main'' \<noteq> None"
  by (simp_all add: getChangedLines_def fileDiffOutput_def changedFilesOutput_def partial_env_def)

theorem failing_file_is_passed_over_witness:
  "getChangedLines partial_env ''main'' ''app.js'' = Inl CommandFailed \<and>
   read_file partial_env ''app.js'' = None \<and>
   changedFilesOutput partial_env ''main'' \<noteq> None \<and>
   GenerateReport partial_env no_rules plain_analyzer ''main'' False
     = Inr \<lparr>Timestamp = 0, ChangedFiles = [''app.js'', ''login.js''],
            Issues = [password_issue ''login.js'', strict_issue ''login.js''],
            Summary = \<lparr>TotalFiles = 2, TotalIssues = 2, HighSeverity = 1, MediumSeverity = 0,
                        LowSeverity = 1\<rparr>\<rparr> \<and>
   File (password_issue ''login.js'') \<noteq> ''app.js'' \<and>
   File (strict_issue ''login.js'') \<noteq> ''app.js'' \<and>
   securityCheckFile partial_env ''main'' GetSecurityPatterns (NewReport 0) ''app.js'' = NewReport 0 \<and>
   qualityCheckFile partial_env no_rules (NewReport 0) ''app.js'' = NewReport 0"
  using failing_file_is_passed_over
          [of partial_env "''main''" "''app.js''" CommandFailed GetSecurityPatterns "NewReport 0"
              "[]" "[''login.js'']" no_rules plain_analyzer False
              "\<lparr>Timestamp = 0, ChangedFiles = [''app.js'', ''login.js''],
                Issues = [password_issue ''login.js'', strict_issue ''login.js''],
                Summary = \<lparr>TotalFiles = 2, TotalIssues = 2, HighSeverity = 1,
                            MediumSeverity = 0, LowSeverity = 1\<rparr>\<rparr>"]
        partial_failures partial_run
  by simp

end
